theory Spec2Isabelle
  imports Main "HOL-Library.List_Lexorder" "HOL-Library.Char_ord" "HOL-Library.Product_Lexorder"
begin

section \<open>JavaScript strings and numbers used by the ticket routes\<close>

text \<open>
  Strings are lists of characters and are compared by character code, position by
  position, which is the order of the \<open>string\<close> type with the two library orders
  imported above.

  A JavaScript number is a double.  The routes compute with integers only, so a number
  is modelled by the integer it holds and \<open>NaN\<close> by \<open>None\<close>; \<open>toDouble\<close> rounds the
  exact result of an operation to the nearest double, a mantissa of 53 bits, ties to the
  even mantissa.  Integers of 309 digits and more (\<open>Infinity\<close>) are not modelled: a
  ticket number has at most 20 characters.
\<close>

function spare_bits :: "int \<Rightarrow> nat" where
  "spare_bits v = (if v < 2 ^ 53 then 0 else Suc (spare_bits (v div 2)))"
  by pat_completeness auto
termination
  by (relation "measure nat") auto

declare spare_bits.simps [simp del]

definition round53 :: "int \<Rightarrow> int" where
  "round53 v =
     (let e = spare_bits v; q = v div 2 ^ e; r = v mod 2 ^ e
      in (if 2 * r < 2 ^ e then q
          else if 2 ^ e < 2 * r then q + 1
          else if even q then q else q + 1) * 2 ^ e)"

definition toDouble :: "int \<Rightarrow> int" where
  "toDouble i = (if i < 0 then - round53 (- i) else round53 i)"

definition isWhiteSpace :: "char \<Rightarrow> bool" where
  "isWhiteSpace c = (of_char c \<in> {9, 10, 11, 12, 13, 32, 160 :: nat})"

definition isDigit :: "char \<Rightarrow> bool" where
  "isDigit c = (CHR ''0'' \<le> c \<and> c \<le> CHR ''9'')"

definition digitValue :: "char \<Rightarrow> nat" where
  "digitValue c = of_char c - 48"

definition decimalValue :: "string \<Rightarrow> nat" where
  "decimalValue ds = foldl (\<lambda>a c. 10 * a + digitValue c) 0 ds"

text \<open>
  \<open>parseInt(s, 10)\<close>: leading white space is skipped, one sign is read, then the
  longest run of decimal digits; no digit at all gives \<open>NaN\<close>.
\<close>

definition parseInt :: "string \<Rightarrow> int option" where
  "parseInt s =
     (let s1 = dropWhile isWhiteSpace s;
          negative = (case s1 of [] \<Rightarrow> False | c # _ \<Rightarrow> c = CHR ''-'');
          s2 = (case s1 of [] \<Rightarrow> []
                | c # r \<Rightarrow> if c = CHR ''-'' \<or> c = CHR ''+'' then r else c # r);
          ds = takeWhile isDigit s2
      in if ds = [] then None
         else Some (toDouble (if negative then - int (decimalValue ds)
                              else int (decimalValue ds))))"

definition digitChar :: "nat \<Rightarrow> char" where
  "digitChar d = ''0123456789'' ! d"

fun digits :: "nat \<Rightarrow> string" where
  "digits n = (if n < 10 then [digitChar n] else digits (n div 10) @ [digitChar (n mod 10)])"

declare digits.simps [simp del]

text \<open>
  \<open>Number.prototype.toString()\<close> of a double that holds an integer below \<open>10^21\<close>.
  Below \<open>2^53\<close> these are its decimal digits.  From there on they are the fewest
  leading digits that still round to the same double, the nearest such if there are
  two, followed by zeros: \<open>shortest d p\<close> looks for these digits for the power of
  ten \<open>p\<close> that stands for the zeros.
\<close>

definition shortest :: "int \<Rightarrow> int \<Rightarrow> int option" where
  "shortest d p =
     (case filter (\<lambda>s. round53 (s * p) = d) [d div p, d div p + 1] of
        [] \<Rightarrow> None
      | [s] \<Rightarrow> Some s
      | s # s' # _ \<Rightarrow>
          Some (if d - s * p < s' * p - d then s
                else if s' * p - d < d - s * p then s'
                else if even s then s else s'))"

definition double_digits :: "int \<Rightarrow> string" where
  "double_digits d =
     (let n = length (digits (nat d))
      in case concat (map (\<lambda>k. case shortest d (10 ^ (n - k)) of
                                  None \<Rightarrow> []
                                | Some s \<Rightarrow> [digits (nat s) @ replicate (n - k) (CHR ''0'')])
                        [1..<Suc n]) of
           [] \<Rightarrow> digits (nat d)
         | text # _ \<Rightarrow> text)"

definition toString :: "int \<Rightarrow> string" where
  "toString i =
     (let text = (if \<bar>i\<bar> < 2 ^ 53 then digits (nat \<bar>i\<bar>) else double_digits \<bar>i\<bar>)
      in if i < 0 then CHR ''-'' # text else text)"

definition padStart :: "nat \<Rightarrow> char \<Rightarrow> string \<Rightarrow> string" where
  "padStart n c s = replicate (n - length s) c @ s"

text \<open>
  \<open>s.replace(pat, '')\<close> with a string pattern: the first occurrence of \<open>pat\<close> is cut
  out, and a string without the pattern is returned as it is.
\<close>

fun replace_first :: "string \<Rightarrow> string \<Rightarrow> string" where
  "replace_first pat [] = []"
| "replace_first pat (c # cs) =
     (if take (length pat) (c # cs) = pat then drop (length pat) (c # cs)
      else c # replace_first pat cs)"

definition trim :: "string \<Rightarrow> string" where
  "trim s = rev (dropWhile isWhiteSpace (rev (dropWhile isWhiteSpace s)))"

definition toLowerChar :: "char \<Rightarrow> char" where
  "toLowerChar c =
     (if CHR ''A'' \<le> c \<and> c \<le> CHR ''Z'' then ''abcdefghijklmnopqrstuvwxyz'' ! (of_char c - 65)
      else c)"

definition toLowerCase :: "string \<Rightarrow> string" where
  "toLowerCase s = map toLowerChar s"

text \<open>
  A request field that may be missing.  \<open>truthy\<close> is the test \<open>if (x)\<close> on it
  and \<open>field\<close> reads its text.
\<close>

definition truthy :: "string option \<Rightarrow> bool" where
  "truthy f = (case f of None \<Rightarrow> False | Some s \<Rightarrow> s \<noteq> [])"

definition field :: "string option \<Rightarrow> string" where
  "field f = (case f of None \<Rightarrow> [] | Some s \<Rightarrow> s)"

text \<open>
  The result of \<open>Number(s)\<close>, which the list route applies to the \<open>created_by\<close>
  query parameter.  The conversion itself belongs to the language and is a parameter of
  that route.
\<close>

datatype number = NaN | Integer int | NonInteger


section \<open>The tables\<close>

text \<open>
  A time stamp is a calendar year and the seconds elapsed in that year; \<open>YEAR\<close> reads
  the first component and time stamps are ordered year first.
\<close>

type_synonym timestamp = "nat \<times> nat"

definition YEAR :: "timestamp \<Rightarrow> nat" where
  "YEAR ts = fst ts"

record user_row =
  u_id :: nat
  username :: string
  u_department :: string
  u_role :: "string option"

record ticket =
  t_id :: nat
  ticket_number :: string
  department :: string
  equipment_type :: string
  problem_description :: string
  issue_date :: string
  photo_url :: "string option"
  status :: string
  priority :: string
  assigned_to :: "nat option"
  created_by :: nat
  created_at :: timestamp
  updated_at :: timestamp

record ticket_update =
  tu_id :: nat
  tu_ticket_id :: nat
  tu_user_id :: nat
  update_type :: string
  old_value :: "string option"
  new_value :: "string option"
  tu_notes :: "string option"
  tu_created_at :: timestamp

text \<open>
  The committed contents of the database, rows in insertion order, with the two
  \<open>AUTO_INCREMENT\<close> counters.
\<close>

record database =
  users :: "user_row list"
  tickets :: "ticket list"
  ticket_updates :: "ticket_update list"
  next_ticket_id :: nat
  next_update_id :: nat

text \<open>
  What the database server decides and the sources do not show, taken as a parameter.
  \<open>collate\<close> gives the weight string of a ticket number under the collation of its
  column (\<open>utf8mb4_general_ci\<close> in the schema): the \<open>UNIQUE\<close> index holds two numbers
  equal when their weight strings are equal, and \<open>ORDER BY ticket_number\<close> sorts by
  them.  \<open>store_ticket\<close> gives what the server stores in the \<open>ENUM\<close> column
  \<open>equipment_type\<close> and in the \<open>DATETIME\<close> column \<open>issue_date\<close> for the values of a
  new row, or nothing when it rejects the row (under strict SQL mode: a text outside the
  \<open>ENUM\<close>, a date it cannot read, a text longer than its column).
\<close>

record server =
  collate :: "string \<Rightarrow> string"
  store_ticket :: "ticket \<Rightarrow> (string \<times> string) option"

text \<open>
  What the error handlers look at: \<open>error.code === 'ER_DUP_ENTRY'\<close> or anything else
  that was thrown.
\<close>

datatype error = ER_DUP_ENTRY | Failure

text \<open>
  Every awaited call on the pool or on a connection may throw.  A fault plan says, for
  the n-th awaited database call of one request (counted from 0), whether it throws and
  what; a call that throws has no effect on the tables.
\<close>

type_synonym faults = "nat \<Rightarrow> error option"

text \<open>The authenticated caller, \<open>req.user\<close>.\<close>

record user =
  user_id :: nat
  user_role :: "string option"
  user_department :: string


section \<open>Responses\<close>

record created_ticket =
  c_id :: nat
  c_ticket_number :: string
  c_department :: string
  c_equipment_type :: string
  c_problem_description :: string
  c_issue_date :: string
  c_photo_url :: "string option"
  c_status :: string

datatype body =
    Message string
  | Errors "string list"
  | Created created_ticket
  | Tickets "ticket list" int int nat
  | Detail ticket "string option" "(ticket_update \<times> string) list"
  | Updates "(ticket_update \<times> string \<times> string) list"

datatype response = Response nat body


text \<open>An answer that reports success.\<close>

definition ok :: "response \<Rightarrow> bool" where
  "ok r = (case r of Response code b \<Rightarrow> code = 200 \<or> code = 201)"

definition server_error :: response where
  "server_error = Response 500 (Message ''Server error'')"

definition not_found :: response where
  "not_found = Response 404 (Message ''Ticket not found'')"


section \<open>Creating a ticket: \<open>router.post('/')\<close>\<close>

record create_request =
  cr_user :: user
  cr_department :: "string option"
  cr_equipment_type :: "string option"
  cr_problem_description :: "string option"
  cr_issue_date :: "string option"
  cr_file :: "string option"

definition isAdmin :: "user \<Rightarrow> bool" where
  "isAdmin u = (toLowerCase (case user_role u of None \<Rightarrow> [] | Some r \<Rightarrow> r) = ''admin'')"

text \<open>
  The validators of the route, one entry per failed validator, by the name of its field.
  A field of the body is a text or is missing, so \<open>isString\<close> fails exactly on a
  missing field: never on \<open>department\<close>, which is optional, and together with
  \<open>notEmpty\<close> on a missing \<open>equipment_type\<close>.  \<open>isISO8601\<close> is the validation
  library's test of a date and is a parameter.
\<close>

definition notEmpty :: "string option \<Rightarrow> bool" where
  "notEmpty f = (case f of None \<Rightarrow> False | Some s \<Rightarrow> s \<noteq> [])"

definition create_validation :: "(string \<Rightarrow> bool) \<Rightarrow> create_request \<Rightarrow> string list" where
  "create_validation isISO8601 req =
     (case cr_equipment_type req of
        None \<Rightarrow> [''equipment_type'', ''equipment_type'']
      | Some e \<Rightarrow> if e = [] then [''equipment_type''] else []) @
     (if notEmpty (cr_problem_description req) then [] else [''problem_description'']) @
     (case cr_issue_date req of
        None \<Rightarrow> [''issue_date'']
      | Some d \<Rightarrow> if isISO8601 d then [] else [''issue_date''])"

text \<open>
  \<open>SELECT ticket_number FROM tickets WHERE YEAR(created_at) = ? ORDER BY ticket_number
  DESC LIMIT 1\<close>: no row, or the ticket number of the year that is greatest under the
  collation of the column (the first such row; the \<open>UNIQUE\<close> index leaves only one).
\<close>

definition select_last_ticket_number :: "server \<Rightarrow> nat \<Rightarrow> ticket list \<Rightarrow> string list" where
  "select_last_ticket_number srv year ts =
     (case map ticket_number (filter (\<lambda>t. YEAR (created_at t) = year) ts) of
        [] \<Rightarrow> []
      | n # ns \<Rightarrow>
          [fold (\<lambda>x best. if collate srv best < collate srv x then x else best) ns n])"

definition nextCount :: "nat \<Rightarrow> string list \<Rightarrow> int" where
  "nextCount year rows =
     (case rows of
        [] \<Rightarrow> 1
      | lastNumber # _ \<Rightarrow>
          if lastNumber = [] then 1
          else (case parseInt (replace_first (''TKT'' @ digits year) lastNumber) of
                  None \<Rightarrow> 1
                | Some parsed \<Rightarrow> toDouble (parsed + 1)))"

definition make_ticket_number :: "nat \<Rightarrow> int \<Rightarrow> string" where
  "make_ticket_number year n = ''TKT'' @ digits year @ padStart 4 (CHR ''0'') (toString n)"

text \<open>The allocator: the number the route computes from the tickets of the year.\<close>

definition allocate_ticket_number :: "server \<Rightarrow> nat \<Rightarrow> ticket list \<Rightarrow> string" where
  "allocate_ticket_number srv year ts =
     make_ticket_number year (nextCount year (select_last_ticket_number srv year ts))"

text \<open>
  The row of the \<open>INSERT\<close> into \<open>tickets\<close>: the values the route binds, and the
  column defaults for \<open>status\<close>, \<open>priority\<close> and \<open>assigned_to\<close>.
\<close>

definition new_ticket ::
  "timestamp \<Rightarrow> nat \<Rightarrow> string \<Rightarrow> string \<Rightarrow> string \<Rightarrow> string \<Rightarrow> string \<Rightarrow> string option \<Rightarrow> nat \<Rightarrow>
   ticket" where
  "new_ticket now i tn dep et pd idate photo uid =
     \<lparr>t_id = i, ticket_number = tn, department = dep, equipment_type = et,
      problem_description = pd, issue_date = idate, photo_url = photo, status = ''Pending'',
      priority = ''Medium'', assigned_to = None, created_by = uid, created_at = now,
      updated_at = now\<rparr>"

text \<open>
  The \<open>INSERT\<close> itself.  The server first converts the values to the column types and
  may reject them; the column \<open>ticket_number\<close> is \<open>UNIQUE\<close>, over all years and under
  its collation.  Other reasons for the statement to fail (a missing foreign key, a lost
  connection) are left to the fault plan.
\<close>

definition insert_ticket ::
  "server \<Rightarrow> timestamp \<Rightarrow> string \<Rightarrow> string \<Rightarrow> string \<Rightarrow> string \<Rightarrow> string \<Rightarrow> string option \<Rightarrow> nat \<Rightarrow>
   database \<Rightarrow> error + database" where
  "insert_ticket srv now tn dep et pd idate photo uid db =
     (let row = new_ticket now (next_ticket_id db) tn dep et pd idate photo uid in
      case store_ticket srv row of
        None \<Rightarrow> Inl Failure
      | Some (member, datetime) \<Rightarrow>
          if collate srv tn \<in> set (map (\<lambda>t. collate srv (ticket_number t)) (tickets db))
          then Inl ER_DUP_ENTRY
          else Inr (db\<lparr>tickets := tickets db @
                      [row\<lparr>equipment_type := member, issue_date := datetime\<rparr>],
                    next_ticket_id := Suc (next_ticket_id db)\<rparr>))"

definition insert_update ::
  "timestamp \<Rightarrow> nat \<Rightarrow> nat \<Rightarrow> string \<Rightarrow> string option \<Rightarrow> string option \<Rightarrow> string option \<Rightarrow>
   database \<Rightarrow> database" where
  "insert_update now tid uid ty old new nts db =
     db\<lparr>ticket_updates := ticket_updates db @
          [\<lparr>tu_id = next_update_id db, tu_ticket_id = tid, tu_user_id = uid,
            update_type = ty, old_value = old, new_value = new, tu_notes = nts,
            tu_created_at = now\<rparr>],
        next_update_id := Suc (next_update_id db)\<rparr>"

text \<open>
  \<open>conn.rollback()\<close>: the rows are those of the last commit; the \<open>AUTO_INCREMENT\<close>
  counters are not part of a transaction and stay where the statements left them.
\<close>

definition rollback :: "database \<Rightarrow> database \<Rightarrow> database" where
  "rollback committed working =
     working\<lparr>users := users committed, tickets := tickets committed,
             ticket_updates := ticket_updates committed\<rparr>"

text \<open>
  The body of the \<open>try\<close> block from \<open>pool.getConnection()\<close> to \<open>conn.commit()\<close>,
  together with the \<open>rollback\<close> of the \<open>catch\<close> block.  The awaited calls are
  0 \<open>getConnection\<close>, 1 \<open>beginTransaction\<close>, 2 the \<open>SELECT ... FOR UPDATE\<close>,
  3 the \<open>INSERT\<close> of the ticket, 4 the \<open>INSERT\<close> of the first update, 5 \<open>commit\<close>.
  The result is the committed database and what the block threw or computed.
\<close>

definition create_statements ::
  "server \<Rightarrow> faults \<Rightarrow> timestamp \<Rightarrow> database \<Rightarrow> string \<Rightarrow> string \<Rightarrow> string \<Rightarrow> string \<Rightarrow> string option \<Rightarrow>
   nat \<Rightarrow> database \<times> (error + nat \<times> string)" where
  "create_statements srv faults now db dep et pd idate photo uid =
     (case faults 0 of Some e \<Rightarrow> (db, Inl e) | None \<Rightarrow>
     (case faults 1 of Some e \<Rightarrow> (db, Inl e) | None \<Rightarrow>
     (case faults 2 of Some e \<Rightarrow> (db, Inl e) | None \<Rightarrow>
     (let tn = allocate_ticket_number srv (YEAR now) (tickets db) in
     (case faults 3 of Some e \<Rightarrow> (db, Inl e) | None \<Rightarrow>
     (case insert_ticket srv now tn dep et pd idate photo uid db of
        Inl e \<Rightarrow> (db, Inl e)
      | Inr db1 \<Rightarrow>
     (case faults 4 of Some e \<Rightarrow> (rollback db db1, Inl e) | None \<Rightarrow>
     (let db2 = insert_update now (next_ticket_id db) uid ''status_change'' None
                  (Some ''Pending'') (Some ''Ticket created'') db1
      in
     (case faults 5 of Some e \<Rightarrow> (rollback db db2, Inl e) | None \<Rightarrow>
        (db2, Inr (next_ticket_id db, tn)))))))))))"

text \<open>\<open>req.file ? `/uploads/${req.file.filename}` : null\<close>\<close>

definition uploaded_photo_url :: "string option \<Rightarrow> string option" where
  "uploaded_photo_url file = map_option (\<lambda>filename. ''/uploads/'' @ filename) file"

text \<open>
  The department of the new ticket: an admin names it, everyone else gets the
  department of their own profile.
\<close>

definition create_department :: "create_request \<Rightarrow> string" where
  "create_department req =
     (if isAdmin (cr_user req) then field (cr_department req)
      else user_department (cr_user req))"

definition duplicate_response :: response where
  "duplicate_response = Response 409 (Message ''Duplicate ticket number generated; please retry'')"

definition create_ticket ::
  "server \<Rightarrow> (string \<Rightarrow> bool) \<Rightarrow> faults \<Rightarrow> timestamp \<Rightarrow> database \<Rightarrow> create_request \<Rightarrow> database \<times> response" where
  "create_ticket srv isISO8601 faults now db req =
     (let errors = create_validation isISO8601 req in
      if errors \<noteq> [] then (db, Response 400 (Errors errors))
      else if isAdmin (cr_user req) \<and> \<not> truthy (cr_department req)
      then (db, Response 400 (Errors [''department'']))
      else
        let dep = create_department req;
            et = trim (field (cr_equipment_type req));
            pd = field (cr_problem_description req);
            idate = field (cr_issue_date req);
            photo = uploaded_photo_url (cr_file req)
        in
        case create_statements srv faults now db dep et pd idate photo (user_id (cr_user req)) of
          (db', Inr (insertId, tn)) \<Rightarrow>
            (db', Response 201 (Created
               \<lparr>c_id = insertId, c_ticket_number = tn, c_department = dep,
                c_equipment_type = et, c_problem_description = pd, c_issue_date = idate,
                c_photo_url = photo, c_status = ''Pending''\<rparr>))
        | (db', Inl e) \<Rightarrow>
            (db', if e = ER_DUP_ENTRY then duplicate_response else server_error))"


text \<open>What the \<open>try\<close> block of a creation threw, if it threw.\<close>

definition create_thrown ::
  "server \<Rightarrow> faults \<Rightarrow> timestamp \<Rightarrow> database \<Rightarrow> create_request \<Rightarrow> error option" where
  "create_thrown srv faults now db req =
     (case snd (create_statements srv faults now db (create_department req)
                  (trim (field (cr_equipment_type req))) (field (cr_problem_description req))
                  (field (cr_issue_date req)) (uploaded_photo_url (cr_file req))
                  (user_id (cr_user req))) of
        Inl e \<Rightarrow> Some e
      | Inr _ \<Rightarrow> None)"


text \<open>The row that the \<open>INSERT\<close> of a creation request hands to the server.\<close>

definition create_row :: "server \<Rightarrow> timestamp \<Rightarrow> database \<Rightarrow> create_request \<Rightarrow> ticket" where
  "create_row srv now db req =
     new_ticket now (next_ticket_id db) (allocate_ticket_number srv (YEAR now) (tickets db))
       (create_department req) (trim (field (cr_equipment_type req)))
       (field (cr_problem_description req)) (field (cr_issue_date req))
       (uploaded_photo_url (cr_file req)) (user_id (cr_user req))"


section \<open>Listing tickets: \<open>router.get('/')\<close>\<close>

record list_query =
  q_page :: "string option"
  q_limit :: "string option"
  q_status :: "string option"
  q_department :: "string option"
  q_search :: "string option"
  q_created_by :: "string option"

text \<open>\<open>parseInt(q, 10) || d\<close>, where a missing parameter parses to \<open>NaN\<close>.\<close>

definition parseInt_or :: "string option \<Rightarrow> int \<Rightarrow> int" where
  "parseInt_or q d =
     (case q of
        None \<Rightarrow> d
      | Some s \<Rightarrow> (case parseInt s of None \<Rightarrow> d | Some n \<Rightarrow> if n = 0 then d else n))"

text \<open>
  The SQL operator \<open>LIKE\<close>: \<open>%\<close> stands for any text, \<open>_\<close> for one character, a
  backslash takes the next character literally, and letters match without regard to
  case.
\<close>

fun like :: "string \<Rightarrow> string \<Rightarrow> bool" where
  "like [] s = (s = [])"
| "like (p # ps) [] = (p = CHR ''%'' \<and> like ps [])"
| "like (p # ps) (c # cs) =
     (if p = CHR ''%'' then like ps (c # cs) \<or> like (p # ps) cs
      else if p = CHR ''_'' then like ps cs
      else if p = CHR 0x5C then
        (case ps of
           [] \<Rightarrow> c = CHR 0x5C \<and> cs = []
         | q # qs \<Rightarrow> toLowerChar q = toLowerChar c \<and> like qs cs)
      else toLowerChar p = toLowerChar c \<and> like ps cs)"

text \<open>
  The conditions pushed on \<open>where\<close>, in the order of the route.  Only an admin may
  choose the creator; every other caller is tied to their own id.
\<close>

definition list_where :: "(string \<Rightarrow> number) \<Rightarrow> user \<Rightarrow> list_query \<Rightarrow> (ticket \<Rightarrow> bool) list" where
  "list_where Number u q =
     (if \<not> isAdmin u then [\<lambda>t. created_by t = user_id u]
      else if truthy (q_created_by q) \<and> 0 < length (trim (field (q_created_by q))) \<and>
              Number (field (q_created_by q)) \<noteq> NaN
      then [\<lambda>t. Integer (int (created_by t)) = Number (field (q_created_by q))]
      else []) @
     (if truthy (q_status q) then [\<lambda>t. status t = field (q_status q)] else []) @
     (if truthy (q_department q) then [\<lambda>t. department t = field (q_department q)] else []) @
     (if truthy (q_search q) \<and> 0 < length (trim (field (q_search q)))
      then [\<lambda>t. let term = ''%'' @ trim (field (q_search q)) @ ''%''
                in like term (ticket_number t) \<or> like term (problem_description t) \<or>
                   like term (equipment_type t) \<or> like term (department t)]
      else [])"

definition select_where :: "(ticket \<Rightarrow> bool) list \<Rightarrow> ticket list \<Rightarrow> ticket list" where
  "select_where conds ts = filter (\<lambda>t. list_all (\<lambda>p. p t) conds) ts"

text \<open>
  The awaited calls are 0 the \<open>COUNT(*)\<close> query and 1 the page query, which sorts by
  \<open>created_at\<close>, newest first (rows of one instant: last inserted first).
\<close>

definition get_tickets :: "(string \<Rightarrow> number) \<Rightarrow> faults \<Rightarrow> database \<Rightarrow> user \<Rightarrow> list_query \<Rightarrow> response" where
  "get_tickets Number faults db u q =
     (let page = max 1 (parseInt_or (q_page q) 1);
          limit = max 1 (parseInt_or (q_limit q) 10);
          offset = toDouble (toDouble (page - 1) * limit);
          conds = list_where Number u q
      in
     (case faults 0 of Some e \<Rightarrow> server_error | None \<Rightarrow>
     (let totalItems = length (select_where conds (tickets db));
          totalPages = max 1 ((int totalItems + limit - 1) div limit)
      in
     (case faults 1 of Some e \<Rightarrow> server_error | None \<Rightarrow>
        Response 200
          (Tickets (take (nat limit) (drop (nat offset)
                      (rev (sort_key created_at (select_where conds (tickets db))))))
             page totalPages totalItems)))))"


section \<open>One ticket by id: view, history, status, notes, deletion\<close>

text \<open>
  The look-up shared by the routes that address one ticket: \<open>WHERE id = ?\<close>, and
  \<open>AND created_by = ?\<close> only when \<open>req.user.role === 'user'\<close>.
\<close>

definition select_ticket :: "user \<Rightarrow> nat \<Rightarrow> ticket list \<Rightarrow> ticket list" where
  "select_ticket u i ts =
     filter (\<lambda>t. t_id t = i \<and> (user_role u = Some ''user'' \<longrightarrow> created_by t = user_id u)) ts"




text \<open>
  \<open>router.put('/:id/status')\<close>.  The calls are 0 the \<open>SELECT\<close>, 1 the \<open>UPDATE\<close> and
  2 the \<open>INSERT\<close>, each sent to the pool on its own: what a call has written stays
  written when a later call throws.  The \<open>UPDATE\<close> touches \<open>updated_at\<close> of a row whose
  status it changes.  A body without \<open>notes\<close> leaves an undefined value among the
  parameters of the \<open>INSERT\<close>, which the driver refuses to bind: that call throws.
\<close>

record status_request =
  sr_user :: user
  sr_id :: nat
  sr_status :: "string option"
  sr_notes :: "string option"

definition statuses :: "string list" where
  "statuses = [''Pending'', ''In Progress'', ''On Hold'', ''Done'', ''Closed'']"

definition closed_response :: response where
  "closed_response = Response 400 (Message ''Cannot modify a closed ticket'')"

definition set_status :: "timestamp \<Rightarrow> nat \<Rightarrow> string \<Rightarrow> database \<Rightarrow> database" where
  "set_status now i s db =
     db\<lparr>tickets := map (\<lambda>t. if t_id t = i \<and> status t \<noteq> s
                             then t\<lparr>status := s, updated_at := now\<rparr> else t) (tickets db)\<rparr>"

definition update_status :: "faults \<Rightarrow> timestamp \<Rightarrow> database \<Rightarrow> status_request \<Rightarrow> database \<times> response" where
  "update_status faults now db req =
     (if field (sr_status req) \<notin> set statuses then (db, Response 400 (Errors [''status'']))
      else
     (case faults 0 of Some e \<Rightarrow> (db, server_error) | None \<Rightarrow>
     (case filter (\<lambda>t. t_id t = sr_id req) (tickets db) of
        [] \<Rightarrow> (db, not_found)
      | t # _ \<Rightarrow>
          if status t = ''Closed'' then (db, closed_response)
          else
     (let oldStatus = status t in
     (case faults 1 of Some e \<Rightarrow> (db, server_error) | None \<Rightarrow>
     (let db1 = set_status now (sr_id req) (field (sr_status req)) db in
     (if sr_notes req = None then (db1, server_error)
      else
     (case faults 2 of Some e \<Rightarrow> (db1, server_error) | None \<Rightarrow>
        (insert_update now (sr_id req) (user_id (sr_user req)) ''status_change''
           (Some oldStatus) (sr_status req) (sr_notes req) db1,
         Response 200 (Message ''Ticket status updated successfully''))))))))))"



text \<open>
  \<open>router.delete('/:id')\<close>.  The files are the set of paths that exist under the
  server directory, written as the stored \<open>photo_url\<close> writes them; \<open>unlink_throws\<close>
  says whether \<open>fs.unlinkSync\<close> throws when it is called.  Call 0 is the \<open>SELECT\<close>
  and call 1 the \<open>DELETE\<close>, which takes the updates of the ticket with it
  (\<open>ON DELETE CASCADE\<close>).
\<close>

definition closed_delete_response :: response where
  "closed_delete_response = Response 400 (Message ''Cannot delete a closed ticket'')"

definition delete_rows :: "nat \<Rightarrow> database \<Rightarrow> database" where
  "delete_rows i db =
     db\<lparr>tickets := filter (\<lambda>t. t_id t \<noteq> i) (tickets db),
        ticket_updates := filter (\<lambda>tu. tu_ticket_id tu \<noteq> i) (ticket_updates db)\<rparr>"

definition delete_ticket ::
  "faults \<Rightarrow> bool \<Rightarrow> database \<Rightarrow> string set \<Rightarrow> user \<Rightarrow> nat \<Rightarrow> database \<times> string set \<times> response" where
  "delete_ticket faults unlink_throws db files u i =
     (case faults 0 of Some e \<Rightarrow> (db, files, server_error) | None \<Rightarrow>
     (case select_ticket u i (tickets db) of
        [] \<Rightarrow> (db, files, not_found)
      | t # _ \<Rightarrow>
          if status t = ''Closed'' then (db, files, closed_delete_response)
          else if truthy (photo_url t) \<and> field (photo_url t) \<in> files \<and> unlink_throws
          then (db, files, server_error)
          else
     (let files1 = (if truthy (photo_url t) then files - {field (photo_url t)} else files) in
     (case faults 1 of Some e \<Rightarrow> (db, files1, server_error) | None \<Rightarrow>
        (delete_rows i db, files1, Response 200 (Message ''Ticket deleted successfully''))))))"


section \<open>Example data\<close>

definition alice :: user where
  "alice = \<lparr>user_id = 2, user_role = Some ''user'', user_department = ''Sales''\<rparr>"

definition bob :: user where
  "bob = \<lparr>user_id = 3, user_role = Some ''user'', user_department = ''Finance''\<rparr>"


definition root :: user where
  "root = \<lparr>user_id = 1, user_role = Some ''admin'', user_department = ''IT Department''\<rparr>"

definition accounts :: "user_row list" where
  "accounts =
     [\<lparr>u_id = 1, username = ''admin'', u_department = ''IT Department'', u_role = Some ''admin''\<rparr>,
      \<lparr>u_id = 2, username = ''user1'', u_department = ''Sales'', u_role = Some ''user''\<rparr>,
      \<lparr>u_id = 3, username = ''user2'', u_department = ''Finance'', u_role = Some ''user''\<rparr>,
      \<lparr>u_id = 4, username = ''tech1'', u_department = ''IT Department'', u_role = Some ''it''\<rparr>]"

definition empty_db :: database where
  "empty_db = \<lparr>users = accounts, tickets = [], ticket_updates = [], next_ticket_id = 1,
               next_update_id = 1\<rparr>"

definition fan_request :: "user \<Rightarrow> string option \<Rightarrow> create_request" where
  "fan_request u d =
     \<lparr>cr_user = u, cr_department = d, cr_equipment_type = Some ''PC'',
      cr_problem_description = Some ''The fan is not functioning'',
      cr_issue_date = Some ''2025-07-17'', cr_file = None\<rparr>"

definition printer_request :: "user \<Rightarrow> create_request" where
  "printer_request u =
     \<lparr>cr_user = u, cr_department = None, cr_equipment_type = Some ''Printer'',
      cr_problem_description = Some ''Paper jam'', cr_issue_date = Some ''2025-07-18'',
      cr_file = None\<rparr>"

definition ten_chars :: "string \<Rightarrow> bool" where
  "ten_chars d = (length d = 10)"

text \<open>
  A server whose collation ignores the case of the letters \<open>a\<close> to \<open>z\<close>, as
  \<open>utf8mb4_general_ci\<close> does, and which stores the three members of the \<open>ENUM\<close> and
  rejects every other equipment type.
\<close>

definition ascii_ci :: "string \<Rightarrow> string" where
  "ascii_ci s =
     map (\<lambda>c. if CHR ''a'' \<le> c \<and> c \<le> CHR ''z''
              then ''ABCDEFGHIJKLMNOPQRSTUVWXYZ'' ! (of_char c - 97) else c) s"

definition example_server :: server where
  "example_server =
     \<lparr>collate = ascii_ci,
      store_ticket = (\<lambda>t. if equipment_type t \<in> set [''PC'', ''Laptop'', ''Other'']
                          then Some (equipment_type t, issue_date t) else None)\<rparr>"

definition no_faults :: faults where
  "no_faults = (\<lambda>k. None)"

definition fault_at :: "nat \<Rightarrow> faults" where
  "fault_at n = (\<lambda>k. if k = n then Some Failure else None)"

text \<open>
  Rows as the routes write them, and three tables in which the greatest ticket number
  of 2025 does not parse: two with a suffix of letters, one with a number in lower case.
\<close>

definition example_ticket :: "nat \<Rightarrow> string \<Rightarrow> nat \<Rightarrow> string \<Rightarrow> string option \<Rightarrow> timestamp \<Rightarrow> ticket" where
  "example_ticket i tn uid st photo ts =
     \<lparr>t_id = i, ticket_number = tn, department = ''Sales'', equipment_type = ''PC'',
      problem_description = ''The fan is not functioning'', issue_date = ''2025-07-17'',
      photo_url = photo, status = st, priority = ''Medium'', assigned_to = None,
      created_by = uid, created_at = ts, updated_at = ts\<rparr>"

definition creation_update :: "nat \<Rightarrow> nat \<Rightarrow> nat \<Rightarrow> timestamp \<Rightarrow> ticket_update" where
  "creation_update k i uid ts =
     \<lparr>tu_id = k, tu_ticket_id = i, tu_user_id = uid, update_type = ''status_change'',
      old_value = None, new_value = Some ''Pending'', tu_notes = Some ''Ticket created'',
      tu_created_at = ts\<rparr>"

definition corrupted_db :: database where
  "corrupted_db =
     \<lparr>users = accounts,
      tickets = [example_ticket 1 ''TKT20250001'' 2 ''Pending'' None (2025, 10),
                 example_ticket 2 ''TKT2025ABCD'' 3 ''Pending'' None (2025, 20)],
      ticket_updates = [creation_update 1 1 2 (2025, 10), creation_update 2 2 3 (2025, 20)],
      next_ticket_id = 3, next_update_id = 3\<rparr>"

definition lowercase_db :: database where
  "lowercase_db =
     \<lparr>users = accounts,
      tickets = [example_ticket 1 ''tkt20250001'' 2 ''Pending'' None (2025, 10)],
      ticket_updates = [creation_update 1 1 2 (2025, 10)],
      next_ticket_id = 2, next_update_id = 2\<rparr>"

definition garbled_db :: database where
  "garbled_db =
     \<lparr>users = accounts,
      tickets = [example_ticket 1 ''TKT2025ABCD'' 3 ''Pending'' None (2025, 20)],
      ticket_updates = [creation_update 1 1 3 (2025, 20)],
      next_ticket_id = 2, next_update_id = 2\<rparr>"

definition dup_at_commit :: faults where
  "dup_at_commit = (\<lambda>k. if k = 5 then Some ER_DUP_ENTRY else None)"

text \<open>
  A table with three open tickets of three different creators, the first with a photo,
  and a table whose only ticket is closed.
\<close>

definition note_update :: "nat \<Rightarrow> nat \<Rightarrow> nat \<Rightarrow> string \<Rightarrow> timestamp \<Rightarrow> ticket_update" where
  "note_update k i uid txt ts =
     \<lparr>tu_id = k, tu_ticket_id = i, tu_user_id = uid, update_type = ''note'',
      old_value = None, new_value = None, tu_notes = Some txt, tu_created_at = ts\<rparr>"

definition open_db :: database where
  "open_db =
     \<lparr>users = accounts,
      tickets = [example_ticket 1 ''TKT20250001'' 2 ''Pending'' (Some ''/uploads/ticket-1.png'') (2025, 10),
                 example_ticket 2 ''TKT20250002'' 3 ''Pending'' None (2025, 20),
                 example_ticket 3 ''TKT20250003'' 4 ''Pending'' None (2025, 30)],
      ticket_updates = [creation_update 1 1 2 (2025, 10), creation_update 2 2 3 (2025, 20),
                        creation_update 3 3 4 (2025, 30), note_update 4 1 2 ''Okay sir.'' (2025, 40)],
      next_ticket_id = 4, next_update_id = 5\<rparr>"


definition no_number :: "string \<Rightarrow> number" where
  "no_number s = NaN"

text \<open>
  The sequence part of a ticket number, a whole ticket number, and a year of creations:
  \<open>creations year n db\<close> is the database after \<open>n\<close> successive creation requests of
  one user in that year, none of them disturbed by a fault.
\<close>

definition seq4 :: "nat \<Rightarrow> string" where
  "seq4 n = padStart 4 (CHR ''0'') (toString (int n))"

definition numbered :: "nat \<Rightarrow> nat \<Rightarrow> string" where
  "numbered year n = make_ticket_number year (int n)"

fun creations :: "nat \<Rightarrow> nat \<Rightarrow> database \<Rightarrow> database" where
  "creations year 0 db = db"
| "creations year (Suc n) db =
     fst (create_ticket example_server ten_chars no_faults (year, n) (creations year n db)
            (fan_request alice None))"


section \<open>The creation transaction\<close>

lemma create_statements_thrown:
  assumes "create_statements srv faults now db dep et pd idate photo uid = (db', Inl e)"
  shows "tickets db' = tickets db \<and> ticket_updates db' = ticket_updates db \<and> users db' = users db"
  using assms
  by (auto simp: create_statements_def Let_def rollback_def split: option.splits sum.splits)

lemma create_statements_committed:
  assumes "create_statements srv faults now db dep et pd idate photo uid = (db', Inr (i, tn))"
  shows "i = next_ticket_id db \<and> tn = allocate_ticket_number srv (YEAR now) (tickets db) \<and>
         collate srv tn \<notin> set (map (\<lambda>t. collate srv (ticket_number t)) (tickets db)) \<and>
         (\<exists>member datetime.
            store_ticket srv (new_ticket now i tn dep et pd idate photo uid) =
              Some (member, datetime) \<and>
            tickets db' = tickets db @
              [(new_ticket now i tn dep et pd idate photo uid)
                 \<lparr>equipment_type := member, issue_date := datetime\<rparr>]) \<and>
         ticket_updates db' = ticket_updates db @
           [\<lparr>tu_id = next_update_id db, tu_ticket_id = i, tu_user_id = uid,
             update_type = ''status_change'', old_value = None, new_value = Some ''Pending'',
             tu_notes = Some ''Ticket created'', tu_created_at = now\<rparr>]"
  using assms
  by (auto simp: create_statements_def Let_def rollback_def insert_update_def insert_ticket_def
      split: option.splits sum.splits if_splits prod.splits)

lemma create_ticket_rejected:
  assumes "create_validation isISO8601 req \<noteq> [] \<or>
           (isAdmin (cr_user req) \<and> \<not> truthy (cr_department req))"
  shows "\<exists>es. create_ticket srv isISO8601 faults now db req = (db, Response 400 (Errors es))"
  using assms by (auto simp: create_ticket_def Let_def)

lemma create_ticket_accepted:
  assumes "create_validation isISO8601 req = []"
    and "isAdmin (cr_user req) \<longrightarrow> truthy (cr_department req)"
    and "create_statements srv faults now db (create_department req)
           (trim (field (cr_equipment_type req))) (field (cr_problem_description req))
           (field (cr_issue_date req)) (uploaded_photo_url (cr_file req))
           (user_id (cr_user req)) = (db1, r)"
  shows "create_ticket srv isISO8601 faults now db req =
           (db1, case r of
                   Inl e \<Rightarrow> if e = ER_DUP_ENTRY then duplicate_response else server_error
                 | Inr (insertId, tn) \<Rightarrow>
                     Response 201 (Created
                       \<lparr>c_id = insertId, c_ticket_number = tn,
                        c_department = create_department req,
                        c_equipment_type = trim (field (cr_equipment_type req)),
                        c_problem_description = field (cr_problem_description req),
                        c_issue_date = field (cr_issue_date req),
                        c_photo_url = uploaded_photo_url (cr_file req),
                        c_status = ''Pending''\<rparr>))"
  using assms
  by (auto simp: create_ticket_def Let_def split: sum.splits)

text \<open>
  What a creation leaves behind, by its answer: with 201 the new ticket and its first
  update, appended; with any other answer the rows as they were.
\<close>

lemma create_ticket_outcome:
  assumes "create_ticket srv isISO8601 faults now db req = (db', Response code b)"
  shows "(code = 201 \<and>
          (\<exists>member datetime.
             tickets db' = tickets db @
               [\<lparr>t_id = next_ticket_id db,
                 ticket_number = allocate_ticket_number srv (YEAR now) (tickets db),
                 department = create_department req,
                 equipment_type = member,
                 problem_description = field (cr_problem_description req),
                 issue_date = datetime,
                 photo_url = uploaded_photo_url (cr_file req),
                 status = ''Pending'', priority = ''Medium'', assigned_to = None,
                 created_by = user_id (cr_user req), created_at = now, updated_at = now\<rparr>]) \<and>
          ticket_updates db' = ticket_updates db @
            [\<lparr>tu_id = next_update_id db, tu_ticket_id = next_ticket_id db,
              tu_user_id = user_id (cr_user req), update_type = ''status_change'',
              old_value = None, new_value = Some ''Pending'',
              tu_notes = Some ''Ticket created'', tu_created_at = now\<rparr>] \<and>
          b = Created
                \<lparr>c_id = next_ticket_id db,
                 c_ticket_number = allocate_ticket_number srv (YEAR now) (tickets db),
                 c_department = create_department req,
                 c_equipment_type = trim (field (cr_equipment_type req)),
                 c_problem_description = field (cr_problem_description req),
                 c_issue_date = field (cr_issue_date req),
                 c_photo_url = uploaded_photo_url (cr_file req),
                 c_status = ''Pending''\<rparr>) \<or>
         (code \<noteq> 201 \<and> tickets db' = tickets db \<and> ticket_updates db' = ticket_updates db)"
proof (cases "create_validation isISO8601 req \<noteq> [] \<or>
              (isAdmin (cr_user req) \<and> \<not> truthy (cr_department req))")
  case True
  from create_ticket_rejected[OF True, of srv faults now db] assms show ?thesis
    by auto
next
  case False
  obtain db1 r where st: "create_statements srv faults now db (create_department req)
           (trim (field (cr_equipment_type req))) (field (cr_problem_description req))
           (field (cr_issue_date req)) (uploaded_photo_url (cr_file req))
           (user_id (cr_user req)) = (db1, r)"
    by fastforce
  from False have v: "create_validation isISO8601 req = []"
    "isAdmin (cr_user req) \<longrightarrow> truthy (cr_department req)" by auto
  note acc = create_ticket_accepted[OF v st]
  show ?thesis
  proof (cases r)
    case (Inl e)
    from create_statements_thrown[OF st[unfolded Inl]] acc assms Inl show ?thesis
      by (auto simp: duplicate_response_def server_error_def split: if_splits)
  next
    case (Inr p)
    obtain i tn where p: "p = (i, tn)" by (cases p)
    note c = create_statements_committed[OF st[unfolded Inr p]]
    from acc assms Inr p have "db' = db1" "code = 201"
      "b = Created
            \<lparr>c_id = i, c_ticket_number = tn, c_department = create_department req,
             c_equipment_type = trim (field (cr_equipment_type req)),
             c_problem_description = field (cr_problem_description req),
             c_issue_date = field (cr_issue_date req),
             c_photo_url = uploaded_photo_url (cr_file req), c_status = ''Pending''\<rparr>"
      by auto
    with c show ?thesis by (auto simp: new_ticket_def)
  qed
qed

text \<open>
  Claim C4.  Whatever the request and whichever call throws: a creation that answers 201
  has appended exactly one ticket, in status Pending, and exactly one update, the
  status change from nothing to Pending with the note "Ticket created", written for
  that ticket by the caller; a creation that answers anything else has left the rows
  of both tables as they were.
\<close>

theorem create_ticket_all_or_nothing:
  assumes "create_ticket srv isISO8601 faults now db req = (db', Response code b)"
  shows "(code = 201 \<longrightarrow>
           (\<exists>t u c. tickets db' = tickets db @ [t] \<and>
                  ticket_updates db' = ticket_updates db @ [u] \<and>
                  status t = ''Pending'' \<and> created_by t = user_id (cr_user req) \<and>
                  tu_ticket_id u = t_id t \<and> tu_user_id u = user_id (cr_user req) \<and>
                  update_type u = ''status_change'' \<and> old_value u = None \<and>
                  new_value u = Some ''Pending'' \<and> tu_notes u = Some ''Ticket created'' \<and>
                  b = Created c \<and> c_id c = t_id t \<and> c_ticket_number c = ticket_number t \<and>
                  c_status c = ''Pending'')) \<and>
         (code \<noteq> 201 \<longrightarrow> tickets db' = tickets db \<and> ticket_updates db' = ticket_updates db)"
  using create_ticket_outcome[OF assms] by auto

theorem create_ticket_all_or_nothing_witness:
  "(\<exists>t u. tickets (fst (create_ticket example_server ten_chars no_faults (2025, 0) empty_db
                          (fan_request alice None))) = [t] \<and>
          ticket_updates (fst (create_ticket example_server ten_chars no_faults (2025, 0) empty_db
                          (fan_request alice None))) = [u] \<and>
          status t = ''Pending'' \<and> tu_ticket_id u = t_id t \<and> old_value u = None \<and>
          new_value u = Some ''Pending'') \<and>
   tickets (fst (create_ticket example_server ten_chars (fault_at 4) (2025, 0) empty_db
                   (fan_request alice None))) = [] \<and>
   ticket_updates (fst (create_ticket example_server ten_chars (fault_at 4) (2025, 0) empty_db
                   (fan_request alice None))) = []"
proof -
  let ?ok = "create_ticket example_server ten_chars no_faults (2025, 0) empty_db (fan_request alice None)"
  let ?ko = "create_ticket example_server ten_chars (fault_at 4) (2025, 0) empty_db (fan_request alice None)"
  have "snd ?ok = Response 201 (Created
          \<lparr>c_id = 1, c_ticket_number = ''TKT20250001'', c_department = ''Sales'',
           c_equipment_type = ''PC'', c_problem_description = ''The fan is not functioning'',
           c_issue_date = ''2025-07-17'', c_photo_url = None, c_status = ''Pending''\<rparr>)"
    by code_simp
  then have ok: "?ok = (fst ?ok, Response 201 (Created
          \<lparr>c_id = 1, c_ticket_number = ''TKT20250001'', c_department = ''Sales'',
           c_equipment_type = ''PC'', c_problem_description = ''The fan is not functioning'',
           c_issue_date = ''2025-07-17'', c_photo_url = None, c_status = ''Pending''\<rparr>))"
    by (simp add: prod_eq_iff)
  have "snd ?ko = Response 500 (Message ''Server error'')"
    by code_simp
  then have ko: "?ko = (fst ?ko, Response 500 (Message ''Server error''))"
    by (simp add: prod_eq_iff)
  have e: "tickets empty_db = []" "ticket_updates empty_db = []"
    by (simp_all add: empty_db_def)
  from create_ticket_all_or_nothing[OF ok] create_ticket_all_or_nothing[OF ko] e
  show ?thesis by auto
qed

lemma unique_violation_thrown:
  assumes "faults 0 = None" "faults 1 = None" "faults 2 = None" "faults 3 = None"
    and "store_ticket srv (create_row srv now db req) = Some v"
    and "collate srv (allocate_ticket_number srv (YEAR now) (tickets db))
           \<in> set (map (\<lambda>t. collate srv (ticket_number t)) (tickets db))"
  shows "create_thrown srv faults now db req = Some ER_DUP_ENTRY"
  using assms
  by (simp add: create_thrown_def create_statements_def insert_ticket_def create_row_def
      split: prod.splits)

text \<open>
  Claim C9.  When the creation transaction of a valid request throws the duplicate-key
  error, at the \<open>INSERT\<close> of the ticket or at any other of its calls, the answer is
  the 409 response, which is not the 500 response, and the rows of both tables are
  those from before the request.
\<close>

theorem duplicate_entry_conflict:
  assumes "create_validation isISO8601 req = []"
    and "isAdmin (cr_user req) \<longrightarrow> truthy (cr_department req)"
    and "create_thrown srv faults now db req = Some ER_DUP_ENTRY"
  shows "snd (create_ticket srv isISO8601 faults now db req) = duplicate_response \<and>
         duplicate_response \<noteq> server_error \<and>
         tickets (fst (create_ticket srv isISO8601 faults now db req)) = tickets db \<and>
         ticket_updates (fst (create_ticket srv isISO8601 faults now db req)) = ticket_updates db"
proof -
  obtain db1 r where st: "create_statements srv faults now db (create_department req)
           (trim (field (cr_equipment_type req))) (field (cr_problem_description req))
           (field (cr_issue_date req)) (uploaded_photo_url (cr_file req))
           (user_id (cr_user req)) = (db1, r)"
    by fastforce
  with assms(3) have r: "r = Inl ER_DUP_ENTRY"
    by (simp add: create_thrown_def split: sum.splits)
  from create_ticket_accepted[OF assms(1,2) st] r
  have "create_ticket srv isISO8601 faults now db req = (db1, duplicate_response)" by simp
  moreover from create_statements_thrown[OF st[unfolded r]]
  have "tickets db1 = tickets db \<and> ticket_updates db1 = ticket_updates db" by simp
  ultimately show ?thesis
    by (simp add: duplicate_response_def server_error_def)
qed

theorem duplicate_entry_conflict_witness:
  "snd (create_ticket example_server ten_chars no_faults (2025, 30) corrupted_db (fan_request alice None)) =
     Response 409 (Message ''Duplicate ticket number generated; please retry'') \<and>
   tickets (fst (create_ticket example_server ten_chars no_faults (2025, 30) corrupted_db (fan_request alice None)))
     = tickets corrupted_db \<and>
   snd (create_ticket example_server ten_chars dup_at_commit (2025, 0) empty_db (fan_request alice None)) =
     Response 409 (Message ''Duplicate ticket number generated; please retry'') \<and>
   tickets (fst (create_ticket example_server ten_chars dup_at_commit (2025, 0) empty_db (fan_request alice None)))
     = [] \<and>
   ticket_updates (fst (create_ticket example_server ten_chars dup_at_commit (2025, 0) empty_db
                          (fan_request alice None))) = []"
proof -
  have v: "create_validation ten_chars (fan_request alice None) = []"
    "isAdmin (cr_user (fan_request alice None)) \<longrightarrow> truthy (cr_department (fan_request alice None))"
    by code_simp+
  have "store_ticket example_server
          (create_row example_server (2025, 30) corrupted_db (fan_request alice None)) =
        Some (''PC'', ''2025-07-17'')"
    "collate example_server
       (allocate_ticket_number example_server (YEAR (2025, 30)) (tickets corrupted_db))
          \<in> set (map (\<lambda>t. collate example_server (ticket_number t)) (tickets corrupted_db))"
    by code_simp+
  then have t1: "create_thrown example_server no_faults (2025, 30) corrupted_db (fan_request alice None) = Some ER_DUP_ENTRY"
    by (intro unique_violation_thrown) (simp_all add: no_faults_def)
  have t2: "create_thrown example_server dup_at_commit (2025, 0) empty_db (fan_request alice None) = Some ER_DUP_ENTRY"
    by code_simp
  from duplicate_entry_conflict[OF v t1] duplicate_entry_conflict[OF v t2]
  show ?thesis by (simp add: duplicate_response_def empty_db_def)
qed


lemma create_ticket_ignores_department:
  assumes "\<not> isAdmin (cr_user req)"
  shows "create_ticket srv isISO8601 faults now db (req\<lparr>cr_department := d\<rparr>) =
         create_ticket srv isISO8601 faults now db req"
  using assms by (simp add: create_ticket_def create_validation_def create_department_def)

text \<open>
  Claim C5.  For a caller who is not an admin, two creation requests that differ only
  in the department sent by the client have the same outcome (same tables, same
  answer), and a creation that succeeds stores, and reports, the department of the
  caller's own profile.
\<close>

theorem non_admin_department_forced:
  assumes "\<not> isAdmin (cr_user req)"
  shows "create_ticket srv isISO8601 faults now db (req\<lparr>cr_department := d1\<rparr>) =
         create_ticket srv isISO8601 faults now db (req\<lparr>cr_department := d2\<rparr>) \<and>
         (\<forall>db' b. create_ticket srv isISO8601 faults now db req = (db', Response 201 b) \<longrightarrow>
            (\<exists>t c. tickets db' = tickets db @ [t] \<and>
                   department t = user_department (cr_user req) \<and>
                   b = Created c \<and> c_department c = user_department (cr_user req)))"
proof -
  have "create_department req = user_department (cr_user req)"
    using assms by (simp add: create_department_def)
  then have "\<exists>t c. tickets db' = tickets db @ [t] \<and>
                   department t = user_department (cr_user req) \<and>
                   b = Created c \<and> c_department c = user_department (cr_user req)"
    if "create_ticket srv isISO8601 faults now db req = (db', Response 201 b)" for db' b
    using create_ticket_outcome[OF that] by auto
  with create_ticket_ignores_department[OF assms] show ?thesis
    by simp
qed

theorem non_admin_department_forced_witness:
  "create_ticket example_server ten_chars no_faults (2025, 0) empty_db (fan_request alice (Some ''IT Department'')) =
   create_ticket example_server ten_chars no_faults (2025, 0) empty_db (fan_request alice None) \<and>
   map department (tickets (fst (create_ticket example_server ten_chars no_faults (2025, 0) empty_db
                                   (fan_request alice (Some ''IT Department''))))) = [''Sales'']"
proof -
  let ?r = "fan_request alice None"
  let ?c = "create_ticket example_server ten_chars no_faults (2025, 0) empty_db"
  have a: "\<not> isAdmin (cr_user ?r)" by code_simp
  have r: "?r\<lparr>cr_department := d\<rparr> = fan_request alice d" for d
    by (simp add: fan_request_def)
  note t = non_admin_department_forced[OF a, of example_server ten_chars no_faults "(2025, 0)" empty_db
      "Some ''IT Department''" None, unfolded r]
  have "snd (?c ?r) = Response 201 (Created
          \<lparr>c_id = 1, c_ticket_number = ''TKT20250001'', c_department = ''Sales'',
           c_equipment_type = ''PC'', c_problem_description = ''The fan is not functioning'',
           c_issue_date = ''2025-07-17'', c_photo_url = None, c_status = ''Pending''\<rparr>)"
    by code_simp
  then have ev: "?c ?r = (fst (?c ?r), Response 201 (Created
          \<lparr>c_id = 1, c_ticket_number = ''TKT20250001'', c_department = ''Sales'',
           c_equipment_type = ''PC'', c_problem_description = ''The fan is not functioning'',
           c_issue_date = ''2025-07-17'', c_photo_url = None, c_status = ''Pending''\<rparr>))"
    by (simp add: prod_eq_iff)
  have e: "tickets empty_db = []" "user_department (cr_user ?r) = ''Sales''"
    by (simp_all add: empty_db_def fan_request_def alice_def)
  from t have eq: "?c (fan_request alice (Some ''IT Department'')) = ?c ?r"
    by (rule conjunct1)
  from t[THEN conjunct2, rule_format, OF ev] e
  have "map department (tickets (fst (?c ?r))) = [''Sales'']"
    by auto
  with eq show ?thesis by simp
qed

lemma create_statements_no_faults:
  "create_statements srv no_faults now db dep et pd idate photo uid =
     (case store_ticket srv
             (new_ticket now (next_ticket_id db)
                (allocate_ticket_number srv (YEAR now) (tickets db)) dep et pd idate photo uid) of
        None \<Rightarrow> (db, Inl Failure)
      | Some (member, datetime) \<Rightarrow>
          if collate srv (allocate_ticket_number srv (YEAR now) (tickets db))
               \<in> set (map (\<lambda>t. collate srv (ticket_number t)) (tickets db))
          then (db, Inl ER_DUP_ENTRY)
          else (insert_update now (next_ticket_id db) uid ''status_change'' None
                  (Some ''Pending'') (Some ''Ticket created'')
                  (db\<lparr>tickets := tickets db @
                       [(new_ticket now (next_ticket_id db)
                           (allocate_ticket_number srv (YEAR now) (tickets db))
                           dep et pd idate photo uid)
                          \<lparr>equipment_type := member, issue_date := datetime\<rparr>],
                     next_ticket_id := Suc (next_ticket_id db)\<rparr>),
                Inr (next_ticket_id db, allocate_ticket_number srv (YEAR now) (tickets db))))"
  by (simp add: create_statements_def no_faults_def insert_ticket_def Let_def
      split: option.splits prod.splits)

text \<open>A valid request when no call throws: rejected row, taken number, or stored.\<close>

lemma create_ticket_no_faults:
  assumes "create_validation isISO8601 req = []"
    and "isAdmin (cr_user req) \<longrightarrow> truthy (cr_department req)"
  shows "(case store_ticket srv (create_row srv now db req) of
            None \<Rightarrow> create_ticket srv isISO8601 no_faults now db req = (db, server_error)
          | Some (member, datetime) \<Rightarrow>
              if collate srv (allocate_ticket_number srv (YEAR now) (tickets db))
                   \<in> set (map (\<lambda>t. collate srv (ticket_number t)) (tickets db))
              then create_ticket srv isISO8601 no_faults now db req = (db, duplicate_response)
              else \<exists>db' c. create_ticket srv isISO8601 no_faults now db req =
                              (db', Response 201 (Created c)) \<and>
                     c_ticket_number c = allocate_ticket_number srv (YEAR now) (tickets db) \<and>
                     tickets db' = tickets db @
                       [(create_row srv now db req)
                          \<lparr>equipment_type := member, issue_date := datetime\<rparr>])"
proof -
  obtain db1 r where st: "create_statements srv no_faults now db (create_department req)
           (trim (field (cr_equipment_type req))) (field (cr_problem_description req))
           (field (cr_issue_date req)) (uploaded_photo_url (cr_file req))
           (user_id (cr_user req)) = (db1, r)"
    by fastforce
  note acc = create_ticket_accepted[OF assms st]
  from st acc show ?thesis
    unfolding create_statements_no_faults create_row_def
    by (auto simp: insert_update_def split: option.splits prod.splits if_splits)
qed

lemma first_sequence: "padStart 4 (CHR ''0'') (toString 1) = ''0001''"
  by code_simp

lemma allocate_unparsable:
  assumes "select_last_ticket_number srv year ts = [l]"
    and "parseInt (replace_first (''TKT'' @ digits year) l) = None"
  shows "allocate_ticket_number srv year ts = ''TKT'' @ digits year @ ''0001''"
  using assms
  by (simp add: allocate_ticket_number_def nextCount_def make_ticket_number_def first_sequence)

text \<open>
  Claim C8, as stated, fails: in \<open>corrupted_db\<close> the greatest ticket number of 2025
  is \<open>TKT2025ABCD\<close>, its suffix does not parse, the allocator falls back to
  sequence 1, and \<open>TKT20250001\<close> is already taken, so the creation is answered with
  the 409 response and nothing is stored.
\<close>

theorem unparsable_suffix_counterexample:
  "select_last_ticket_number example_server 2025 (tickets corrupted_db) = [''TKT2025ABCD''] \<and>
   parseInt (replace_first (''TKT'' @ digits 2025) ''TKT2025ABCD'') = None \<and>
   allocate_ticket_number example_server 2025 (tickets corrupted_db) = ''TKT20250001'' \<and>
   create_ticket example_server ten_chars no_faults (2025, 30) corrupted_db
       (fan_request alice None) =
     (corrupted_db, Response 409 (Message ''Duplicate ticket number generated; please retry''))"
  by code_simp

text \<open>
  Claim C8, amended.  When the greatest ticket number of the year (under the collation
  of the column) has a suffix that does not parse, the allocator computes sequence 1,
  that is \<open>TKT<year>0001\<close>.  With a valid request and no call throwing, the creation is
  then answered 500 when the server rejects a value of the row; otherwise 409 when a
  stored ticket number equals \<open>TKT<year>0001\<close> under the collation; otherwise 201, the
  ticket stored under that number.  In the first two cases the database stays as it was.
\<close>

theorem unparsable_suffix_restarts_at_one:
  assumes "create_validation isISO8601 req = []"
    and "isAdmin (cr_user req) \<longrightarrow> truthy (cr_department req)"
    and "select_last_ticket_number srv (YEAR now) (tickets db) = [l]"
    and "parseInt (replace_first (''TKT'' @ digits (YEAR now)) l) = None"
  shows "allocate_ticket_number srv (YEAR now) (tickets db) =
           ''TKT'' @ digits (YEAR now) @ ''0001'' \<and>
         (case store_ticket srv (create_row srv now db req) of
            None \<Rightarrow> create_ticket srv isISO8601 no_faults now db req = (db, server_error)
          | Some (member, datetime) \<Rightarrow>
              if collate srv (''TKT'' @ digits (YEAR now) @ ''0001'')
                   \<in> set (map (\<lambda>t. collate srv (ticket_number t)) (tickets db))
              then create_ticket srv isISO8601 no_faults now db req = (db, duplicate_response)
              else \<exists>db' t c. create_ticket srv isISO8601 no_faults now db req =
                                (db', Response 201 (Created c)) \<and>
                     c_ticket_number c = ''TKT'' @ digits (YEAR now) @ ''0001'' \<and>
                     tickets db' = tickets db @ [t] \<and>
                     ticket_number t = ''TKT'' @ digits (YEAR now) @ ''0001'')"
proof -
  note a = allocate_unparsable[OF assms(3,4)]
  have n: "ticket_number ((create_row srv now db req)\<lparr>equipment_type := m, issue_date := d\<rparr>) =
           allocate_ticket_number srv (YEAR now) (tickets db)" for m d
    by (simp add: create_row_def new_ticket_def)
  from create_ticket_no_faults[OF assms(1,2), of srv now db] n
  have c: "case store_ticket srv (create_row srv now db req) of
            None \<Rightarrow> create_ticket srv isISO8601 no_faults now db req = (db, server_error)
          | Some (member, datetime) \<Rightarrow>
              if collate srv (allocate_ticket_number srv (YEAR now) (tickets db))
                   \<in> set (map (\<lambda>t. collate srv (ticket_number t)) (tickets db))
              then create_ticket srv isISO8601 no_faults now db req = (db, duplicate_response)
              else \<exists>db' t c. create_ticket srv isISO8601 no_faults now db req =
                                (db', Response 201 (Created c)) \<and>
                     c_ticket_number c = allocate_ticket_number srv (YEAR now) (tickets db) \<and>
                     tickets db' = tickets db @ [t] \<and>
                     ticket_number t = allocate_ticket_number srv (YEAR now) (tickets db)"
    by (auto split: option.splits prod.splits if_splits)
  show ?thesis
    unfolding a[symmetric] using c by simp
qed

theorem unparsable_suffix_restarts_at_one_witness:
  "allocate_ticket_number example_server 2025 (tickets garbled_db) = ''TKT20250001'' \<and>
   (\<exists>db' t c. create_ticket example_server ten_chars no_faults (2025, 30) garbled_db
                 (fan_request alice None) = (db', Response 201 (Created c)) \<and>
               c_ticket_number c = ''TKT20250001'' \<and>
               tickets db' = tickets garbled_db @ [t] \<and> ticket_number t = ''TKT20250001'') \<and>
   create_ticket example_server ten_chars no_faults (2025, 30) corrupted_db
       (fan_request alice None) = (corrupted_db, duplicate_response) \<and>
   select_last_ticket_number example_server 2025 (tickets lowercase_db) = [''tkt20250001''] \<and>
   create_ticket example_server ten_chars no_faults (2025, 30) lowercase_db
       (fan_request alice None) = (lowercase_db, duplicate_response) \<and>
   create_ticket example_server ten_chars no_faults (2025, 30) garbled_db
       (printer_request alice) = (garbled_db, server_error)"
proof -
  let ?r = "fan_request alice None"
  let ?p = "printer_request alice"
  have v: "create_validation ten_chars ?r = []"
    "isAdmin (cr_user ?r) \<longrightarrow> truthy (cr_department ?r)"
    by code_simp+
  have w: "create_validation ten_chars ?p = []"
    "isAdmin (cr_user ?p) \<longrightarrow> truthy (cr_department ?p)"
    by code_simp+
  have y: "YEAR (2025, 30) = 2025" "''TKT'' @ digits 2025 @ ''0001'' = ''TKT20250001''"
    by code_simp+
  have g: "select_last_ticket_number example_server (YEAR (2025, 30)) (tickets garbled_db) =
             [''TKT2025ABCD'']"
    "select_last_ticket_number example_server (YEAR (2025, 30)) (tickets corrupted_db) =
             [''TKT2025ABCD'']"
    "select_last_ticket_number example_server (YEAR (2025, 30)) (tickets lowercase_db) =
             [''tkt20250001'']"
    by code_simp+
  have u: "parseInt (replace_first (''TKT'' @ digits (YEAR (2025, 30))) ''TKT2025ABCD'') = None"
    "parseInt (replace_first (''TKT'' @ digits (YEAR (2025, 30))) ''tkt20250001'') = None"
    by code_simp+
  have st: "store_ticket example_server (create_row example_server (2025, 30) garbled_db ?r) =
              Some (''PC'', ''2025-07-17'')"
    "store_ticket example_server (create_row example_server (2025, 30) corrupted_db ?r) =
              Some (''PC'', ''2025-07-17'')"
    "store_ticket example_server (create_row example_server (2025, 30) lowercase_db ?r) =
              Some (''PC'', ''2025-07-17'')"
    "store_ticket example_server (create_row example_server (2025, 30) garbled_db ?p) = None"
    by code_simp+
  have m: "collate example_server ''TKT20250001''
             \<notin> set (map (\<lambda>t. collate example_server (ticket_number t)) (tickets garbled_db))"
    "collate example_server ''TKT20250001''
             \<in> set (map (\<lambda>t. collate example_server (ticket_number t)) (tickets corrupted_db))"
    "collate example_server ''TKT20250001''
             \<in> set (map (\<lambda>t. collate example_server (ticket_number t)) (tickets lowercase_db))"
    by code_simp+
  from unparsable_suffix_restarts_at_one[OF v g(1) u(1)]
       unparsable_suffix_restarts_at_one[OF v g(2) u(1)]
       unparsable_suffix_restarts_at_one[OF v g(3) u(2)]
       unparsable_suffix_restarts_at_one[OF w g(1) u(1)]
       g(3) st m
  show ?thesis unfolding y by simp
qed


section \<open>The allocator over a year\<close>

lemma spare_bits_small: "v < 2 ^ 53 \<Longrightarrow> spare_bits v = 0"
  by (simp add: spare_bits.simps)

lemma toDouble_small: "0 \<le> i \<Longrightarrow> i < 2 ^ 53 \<Longrightarrow> toDouble i = i"
  by (simp add: toDouble_def round53_def spare_bits_small)

lemma isDigit_digitChar: "d < 10 \<Longrightarrow> isDigit (digitChar d)"
proof -
  assume "d < 10"
  then have "d \<in> {0, 1, 2, 3, 4, 5, 6, 7, 8, 9}" by auto
  then show ?thesis
    by (auto simp: isDigit_def digitChar_def)
qed

lemma digitValue_digitChar: "d < 10 \<Longrightarrow> digitValue (digitChar d) = d"
proof -
  assume "d < 10"
  then have "d \<in> {0, 1, 2, 3, 4, 5, 6, 7, 8, 9}" by auto
  then show ?thesis
    by (auto simp: digitValue_def digitChar_def)
qed

lemma digits_nonempty: "digits n \<noteq> []"
  by (subst digits.simps) simp

lemma digits_all: "list_all isDigit (digits n)"
proof (induction n rule: digits.induct)
  case (1 n)
  show ?case
  proof (cases "n < 10")
    case True
    then show ?thesis by (subst digits.simps) (simp add: isDigit_digitChar)
  next
    case False
    with 1 show ?thesis by (subst digits.simps) (simp add: isDigit_digitChar)
  qed
qed

lemma decimalValue_snoc: "decimalValue (ds @ [c]) = 10 * decimalValue ds + digitValue c"
  by (simp add: decimalValue_def)

lemma decimalValue_digits: "decimalValue (digits n) = n"
proof (induction n rule: digits.induct)
  case (1 n)
  show ?case
  proof (cases "n < 10")
    case True
    then show ?thesis
      by (subst digits.simps) (simp add: decimalValue_def digitValue_digitChar)
  next
    case False
    with 1 show ?thesis
      by (subst digits.simps) (simp add: decimalValue_snoc digitValue_digitChar)
  qed
qed

lemma length_digits: "n < 10000 \<Longrightarrow> length (digits n) \<le> 4"
  by (simp add: digits.simps[of n] digits.simps[of "n div 10"] digits.simps[of "n div 10 div 10"]
      digits.simps[of "n div 10 div 10 div 10"])

lemma foldl_decimal:
  "foldl (\<lambda>a c. 10 * a + digitValue c) a ds = a * 10 ^ length ds + decimalValue ds"
  unfolding decimalValue_def
proof (induction ds arbitrary: a)
  case Nil
  then show ?case by simp
next
  case (Cons d ds)
  from Cons[of "10 * a + digitValue d"] Cons[of "digitValue d"]
  show ?case by (simp add: algebra_simps)
qed

lemma decimalValue_Cons: "decimalValue (c # cs) = digitValue c * 10 ^ length cs + decimalValue cs"
  using foldl_decimal[of "digitValue c" cs] by (simp add: decimalValue_def)

lemma digitValue_le: "isDigit c \<Longrightarrow> digitValue c \<le> 9"
  by (auto simp: isDigit_def digitValue_def less_eq_char_def)

lemma decimalValue_less: "list_all isDigit cs \<Longrightarrow> decimalValue cs < 10 ^ length cs"
proof (induction cs)
  case Nil
  then show ?case by (simp add: decimalValue_def)
next
  case (Cons c cs)
  then have "digitValue c \<le> 9" "decimalValue cs < 10 ^ length cs"
    by (simp_all add: digitValue_le)
  then have "digitValue c * 10 ^ length cs + decimalValue cs < 9 * 10 ^ length cs + 10 ^ length cs"
    by (meson add_le_less_mono mult_le_mono1)
  then show ?case by (simp add: decimalValue_Cons)
qed

lemma digit_less: "isDigit c \<Longrightarrow> isDigit d \<Longrightarrow> (c < d) = (digitValue c < digitValue d)"
  by (auto simp: isDigit_def digitValue_def less_eq_char_def less_char_def)

lemma digit_eq: "isDigit c \<Longrightarrow> isDigit d \<Longrightarrow> (c = d) = (digitValue c = digitValue d)"
proof -
  assume "isDigit c" "isDigit d"
  then have b: "48 \<le> (of_char c :: nat)" "48 \<le> (of_char d :: nat)"
    by (simp_all add: isDigit_def less_eq_char_def)
  have "c = d" if "digitValue c = digitValue d"
  proof -
    from that b have "(of_char c :: nat) - 48 + 48 = of_char d - 48 + 48"
      unfolding digitValue_def by presburger
    with b have "(of_char c :: nat) = of_char d" by (simp only: le_add_diff_inverse2)
    then show ?thesis by (simp only: of_char_eq_iff)
  qed
  then show ?thesis by auto
qed

lemma lex_digits:
  assumes "length a = length b" "list_all isDigit a" "list_all isDigit b"
  shows "(a < b) = (decimalValue a < decimalValue b)"
  using assms
proof (induction a b rule: list_induct2)
  case Nil
  then show ?case by simp
next
  case (Cons c cs d ds)
  then have ih: "(cs < ds) = (decimalValue cs < decimalValue ds)" by simp
  from Cons have dg: "isDigit c" "isDigit d" by simp_all
  from Cons have bd: "decimalValue cs < 10 ^ length cs" "decimalValue ds < 10 ^ length cs"
    using decimalValue_less by force+
  let ?P = "10 ^ length cs :: nat"
  consider "digitValue c < digitValue d" | "digitValue c = digitValue d"
    | "digitValue d < digitValue c" by linarith
  then show ?case
  proof cases
    case 1
    then have "Suc (digitValue c) \<le> digitValue d" by simp
    then have "Suc (digitValue c) * ?P \<le> digitValue d * ?P" by (rule mult_le_mono1)
    with bd have "digitValue c * ?P + decimalValue cs < digitValue d * ?P + decimalValue ds"
      by simp
    with 1 dg Cons.hyps show ?thesis
      by (simp add: decimalValue_Cons digit_less)
  next
    case 2
    with dg have "c = d" by (simp add: digit_eq)
    with ih Cons.hyps show ?thesis by (simp add: decimalValue_Cons)
  next
    case 3
    then have "Suc (digitValue d) \<le> digitValue c" by simp
    then have "Suc (digitValue d) * ?P \<le> digitValue c * ?P" by (rule mult_le_mono1)
    with bd have "digitValue d * ?P + decimalValue ds < digitValue c * ?P + decimalValue cs"
      by simp
    moreover from 3 dg have "\<not> c < d" "c \<noteq> d" by (auto simp: digit_less digit_eq)
    ultimately show ?thesis using Cons.hyps
      by (simp add: decimalValue_Cons)
  qed
qed

lemma digit_not_sign: "isDigit c \<Longrightarrow> \<not> isWhiteSpace c \<and> c \<noteq> CHR ''-'' \<and> c \<noteq> CHR ''+''"
  by (auto simp: isDigit_def isWhiteSpace_def less_eq_char_def)

lemma parseInt_digits:
  assumes "s \<noteq> []" "list_all isDigit s"
  shows "parseInt s = Some (toDouble (int (decimalValue s)))"
proof -
  from assms obtain c cs where s: "s = c # cs" and c: "isDigit c" by (cases s) auto
  from assms(2) have t: "takeWhile isDigit s = s"
    by (simp add: takeWhile_eq_all_conv list_all_iff)
  from digit_not_sign[OF c] s have "dropWhile isWhiteSpace s = s" by simp
  with s digit_not_sign[OF c] t show ?thesis
    by (simp add: parseInt_def Let_def)
qed

lemma small_int: "n < 100000 \<Longrightarrow> int n < 2 ^ 53"
  by simp

lemma toString_small: "n < 100000 \<Longrightarrow> toString (int n) = digits n"
  using small_int[of n] by (simp add: toString_def)

lemma seq4_digits: "n < 100000 \<Longrightarrow> seq4 n = padStart 4 (CHR ''0'') (digits n)"
  by (simp add: seq4_def toString_small)

lemma isDigit_zero: "isDigit (CHR ''0'')"
  by (simp add: isDigit_def)

lemma pad_all: "list_all isDigit s \<Longrightarrow> list_all isDigit (padStart 4 (CHR ''0'') s)"
  by (auto simp: padStart_def list_all_iff isDigit_zero)

lemma seq4_all: "n < 100000 \<Longrightarrow> list_all isDigit (seq4 n)"
  by (simp add: seq4_digits pad_all digits_all)

lemma seq4_nonempty: "n < 100000 \<Longrightarrow> seq4 n \<noteq> []"
  by (simp add: seq4_digits padStart_def digits_nonempty)

lemma digitValue_zero: "digitValue (CHR ''0'') = 0"
  by (simp add: digitValue_def)

lemma decimalValue_zeros: "decimalValue (replicate k (CHR ''0'') @ s) = decimalValue s"
  by (induction k) (simp_all add: decimalValue_Cons digitValue_zero)

lemma decimalValue_seq4: "n < 100000 \<Longrightarrow> decimalValue (seq4 n) = n"
  by (simp add: seq4_digits padStart_def decimalValue_zeros decimalValue_digits)

lemma parseInt_seq4:
  assumes "n < 100000"
  shows "parseInt (seq4 n) = Some (int n)"
proof -
  from parseInt_digits[OF seq4_nonempty[OF assms] seq4_all[OF assms]]
  have "parseInt (seq4 n) = Some (toDouble (int n))"
    by (simp add: decimalValue_seq4[OF assms])
  with toDouble_small[of "int n"] small_int[OF assms] show ?thesis by simp
qed

lemma length_seq4: "n < 10000 \<Longrightarrow> length (seq4 n) = 4"
  using length_digits[of n] by (simp add: seq4_digits padStart_def)

lemma seq4_mono:
  assumes "j \<le> k" "k < 10000"
  shows "seq4 j \<le> seq4 k"
proof (cases "j = k")
  case True
  then show ?thesis by simp
next
  case False
  with assms have "j < k" "j < 10000" by simp_all
  with assms lex_digits[of "seq4 j" "seq4 k"] have "seq4 j < seq4 k"
    by (simp add: length_seq4 seq4_all decimalValue_seq4)
  then show ?thesis by simp
qed

lemma append_less_iff: "(p @ a < p @ b) = (a < (b :: string))"
  by (induction p) simp_all

lemma append_le_iff: "(p @ a \<le> p @ b) = (a \<le> (b :: string))"
  by (induction p) simp_all

lemma replace_first_prefix: "replace_first p (p @ s) = s"
proof (cases "p @ s")
  case Nil
  then show ?thesis by simp
next
  case (Cons c cs)
  have "replace_first p (c # cs) =
          (if take (length p) (c # cs) = p then drop (length p) (c # cs)
           else c # replace_first p cs)"
    by simp
  then have "replace_first p (p @ s) =
          (if take (length p) (p @ s) = p then drop (length p) (p @ s)
           else c # replace_first p cs)"
    by (simp only: Cons)
  then show ?thesis by simp
qed

lemma numbered_eq: "numbered year n = (''TKT'' @ digits year) @ seq4 n"
  by (simp add: numbered_def make_ticket_number_def seq4_def)

lemma numbered_mono: "j \<le> k \<Longrightarrow> k < 10000 \<Longrightarrow> numbered year j \<le> numbered year k"
  unfolding numbered_eq append_le_iff by (rule seq4_mono)

lemma seq4_rollover: "seq4 10000 < seq4 9999"
proof -
  have "digits 10000 = ''10000''" "digits 9999 = ''9999''"
    by (simp_all add: digits.simps digitChar_def)
  then show ?thesis by (simp add: seq4_digits padStart_def)
qed

lemma numbered_rollover: "numbered year 10000 < numbered year 9999"
  unfolding numbered_eq append_less_iff by (rule seq4_rollover)

lemma parseInt_numbered:
  "n < 100000 \<Longrightarrow>
   parseInt (replace_first (''TKT'' @ digits year) (numbered year n)) = Some (int n)"
  unfolding numbered_eq replace_first_prefix by (rule parseInt_seq4)

lemma numbered_inj:
  assumes "j < 100000" "k < 100000" "numbered year j = numbered year k"
  shows "j = k"
  using parseInt_numbered[OF assms(1), of year] parseInt_numbered[OF assms(2), of year] assms(3)
  by simp

lemma numbered_nonempty: "numbered year n \<noteq> []"
  by (simp add: numbered_eq)

lemma nextCount_numbered:
  assumes "n < 10000"
  shows "nextCount year [numbered year n] = int (Suc n)"
proof -
  from assms have "n < 100000" by simp
  from parseInt_numbered[OF this, of year] toDouble_small[of "int n + 1"] assms
  show ?thesis by (simp add: nextCount_def numbered_nonempty)
qed

text \<open>The collation of the example server leaves the numbers of the route as they are.\<close>

lemma ascii_ci_fixed:
  assumes "\<forall>c\<in>set s. \<not> (CHR ''a'' \<le> c \<and> c \<le> CHR ''z'')"
  shows "ascii_ci s = s"
  unfolding ascii_ci_def by (rule map_idI) (use assms in auto)

lemma digit_not_lower: "isDigit c \<Longrightarrow> \<not> (CHR ''a'' \<le> c \<and> c \<le> CHR ''z'')"
  by (auto simp: isDigit_def less_eq_char_def)

lemma ascii_ci_numbered:
  assumes "n < 100000"
  shows "ascii_ci (numbered year n) = numbered year n"
proof (rule ascii_ci_fixed, rule ballI)
  fix c assume "c \<in> set (numbered year n)"
  then consider "c \<in> set ''TKT''" | "c \<in> set (digits year)" | "c \<in> set (seq4 n)"
    unfolding numbered_eq by auto
  then show "\<not> (CHR ''a'' \<le> c \<and> c \<le> CHR ''z'')"
  proof cases
    case 1
    then show ?thesis by (auto simp: less_eq_char_def)
  next
    case 2
    with digits_all[of year] have "isDigit c" by (simp add: list_all_iff)
    then show ?thesis by (rule digit_not_lower)
  next
    case 3
    with seq4_all[OF assms] have "isDigit c" by (simp add: list_all_iff)
    then show ?thesis by (rule digit_not_lower)
  qed
qed

lemma fold_greatest:
  assumes "\<forall>x\<in>set (n # ns). key x = x" "m \<in> set (n # ns)" "\<forall>x\<in>set (n # ns). x \<le> m"
  shows "fold (\<lambda>x best. if key best < key x then x else best) ns n = (m :: string)"
  using assms
proof (induction ns arbitrary: n)
  case Nil
  then show ?case by simp
next
  case (Cons a ns)
  let ?b = "if key n < key a then a else n"
  have k: "key n = n" "key a = a" using Cons.prems(1) by simp_all
  have 1: "\<forall>x\<in>set (?b # ns). key x = x" using Cons.prems(1) by simp
  have le: "n \<le> m" "a \<le> m" using Cons.prems(3) by simp_all
  have 2: "m \<in> set (?b # ns)"
  proof (cases "m \<in> set ns")
    case True
    then show ?thesis by simp
  next
    case False
    with Cons.prems(2) have "m = n \<or> m = a" by auto
    with le k show ?thesis by auto
  qed
  have 3: "\<forall>x\<in>set (?b # ns). x \<le> m" using Cons.prems(3) by simp
  from Cons.IH[OF 1 2 3] show ?case by simp
qed

lemma collate_example: "collate example_server = ascii_ci"
  by (simp add: example_server_def)

lemma select_last_numbered:
  assumes "map ticket_number ts = map (numbered y) [1..<Suc n]"
    and "list_all (\<lambda>t. YEAR (created_at t) = y) ts"
    and "1 \<le> n" "n \<le> 10000"
  shows "select_last_ticket_number example_server y ts = [numbered y (min n 9999)]"
proof -
  let ?m = "numbered y (min n 9999)"
  from assms(2) have f: "filter (\<lambda>t. YEAR (created_at t) = y) ts = ts"
    by (simp add: list_all_iff)
  from assms(3) have u: "[1..<Suc n] = 1 # [Suc 1..<Suc n]"
    by (subst upt_rec) simp
  let ?ns = "map (numbered y) [Suc 1..<Suc n]"
  have s: "set (numbered y 1 # ?ns) = numbered y ` {1..n}"
    using u by (metis atLeastLessThanSuc_atLeastAtMost list.simps(9) set_map set_upt)
  have k: "\<forall>x\<in>set (numbered y 1 # ?ns). collate example_server x = x"
    unfolding s collate_example using assms(4) by (auto intro!: ascii_ci_numbered)
  have m: "?m \<in> set (numbered y 1 # ?ns)"
    unfolding s using assms(3) by auto
  have g: "\<forall>x\<in>set (numbered y 1 # ?ns). x \<le> ?m"
    unfolding s
  proof (rule ballI, elim imageE)
    fix x k assume x: "x = numbered y k" and "k \<in> {1..n}"
    then have kn: "k \<le> n" by simp
    show "x \<le> ?m"
    proof (cases "k \<le> 9999")
      case True
      with kn have "k \<le> min n 9999" "min n 9999 < 10000" by simp_all
      then show ?thesis unfolding x by (rule numbered_mono)
    next
      case False
      with kn assms(4) have "k = 10000" "n = 10000" by simp_all
      with numbered_rollover[of y] show ?thesis unfolding x by simp
    qed
  qed
  from fold_greatest[OF k m g] assms(1) u f show ?thesis
    by (simp add: select_last_ticket_number_def)
qed

lemma allocate_numbered:
  assumes "map ticket_number ts = map (numbered y) [1..<Suc n]"
    and "list_all (\<lambda>t. YEAR (created_at t) = y) ts"
    and "n \<le> 10000"
  shows "allocate_ticket_number example_server y ts = numbered y (Suc (min n 9999))"
proof (cases "n = 0")
  case True
  with assms(1) have "ts = []" by simp
  with True show ?thesis
    by (simp add: allocate_ticket_number_def select_last_ticket_number_def nextCount_def
        numbered_def)
next
  case False
  then have "1 \<le> n" by simp
  from select_last_numbered[OF assms(1,2) this assms(3)]
       nextCount_numbered[of "min n 9999" y]
  show ?thesis
    by (simp add: allocate_ticket_number_def numbered_def)
qed

lemma fan_request_valid:
  "create_validation ten_chars (fan_request alice None) = []"
  "isAdmin (cr_user (fan_request alice None)) \<longrightarrow> truthy (cr_department (fan_request alice None))"
  by code_simp+

lemma trim_PC: "trim ''PC'' = ''PC''"
  by code_simp

lemma fan_request_stored:
  "store_ticket example_server (create_row example_server now db (fan_request alice None)) =
     Some (''PC'', ''2025-07-17'')"
  by (simp add: example_server_def create_row_def new_ticket_def fan_request_def field_def trim_PC)

lemma keys_numbered:
  assumes "map ticket_number ts = map (numbered y) [1..<Suc n]" "n \<le> 10000"
  shows "set (map (\<lambda>t. collate example_server (ticket_number t)) ts) = numbered y ` {1..n}"
proof -
  have "map (\<lambda>t. collate example_server (ticket_number t)) ts =
        map ascii_ci (map ticket_number ts)"
    by (simp add: collate_example)
  also have "\<dots> = map (\<lambda>k. ascii_ci (numbered y k)) [1..<Suc n]"
    by (simp add: assms(1))
  also have "\<dots> = map (numbered y) [1..<Suc n]"
    using assms(2) by (intro map_cong refl ascii_ci_numbered) auto
  finally have "set (map (\<lambda>t. collate example_server (ticket_number t)) ts) =
                  numbered y ` set [1..<Suc n]"
    by (simp only: set_map)
  moreover have "set [1..<Suc n] = {1..n}"
    by (simp only: set_upt atLeastLessThanSuc_atLeastAtMost)
  ultimately show ?thesis by (simp only:)
qed

lemma creation_step:
  assumes "map ticket_number (tickets db) = map (numbered y) [1..<Suc n]"
    and "list_all (\<lambda>t. YEAR (created_at t) = y) (tickets db)"
    and "n < 10000"
  shows "map ticket_number (tickets (fst (create_ticket example_server ten_chars no_faults (y, k)
            db (fan_request alice None)))) = map (numbered y) [1..<Suc (Suc n)] \<and>
         list_all (\<lambda>t. YEAR (created_at t) = y) (tickets (fst (create_ticket example_server
            ten_chars no_faults (y, k) db (fan_request alice None))))"
proof -
  let ?r = "fan_request alice None"
  from assms(3) have n: "n \<le> 10000" "min n 9999 = n" by simp_all
  have y: "YEAR (y, k) = y" by (simp add: YEAR_def)
  from allocate_numbered[OF assms(1,2) n(1)] n(2)
  have a: "allocate_ticket_number example_server (YEAR (y, k)) (tickets db) = numbered y (Suc n)"
    by (simp add: y)
  have "numbered y (Suc n) \<notin> numbered y ` {1..n}"
  proof
    assume "numbered y (Suc n) \<in> numbered y ` {1..n}"
    then obtain j where j: "j \<le> n" "numbered y (Suc n) = numbered y j" by auto
    with assms(3) numbered_inj[of "Suc n" j y] show False by simp
  qed
  with keys_numbered[OF assms(1) n(1)] ascii_ci_numbered[of "Suc n" y] assms(3)
  have free: "collate example_server (allocate_ticket_number example_server (YEAR (y, k)) (tickets db))
          \<notin> set (map (\<lambda>t. collate example_server (ticket_number t)) (tickets db))"
    by (simp add: a collate_example)
  from create_ticket_no_faults[OF fan_request_valid, of example_server "(y, k)" db] free
  obtain db' c where
    c: "create_ticket example_server ten_chars no_faults (y, k) db ?r =
          (db', Response 201 (Created c))"
    and t: "tickets db' = tickets db @
          [(create_row example_server (y, k) db ?r)
             \<lparr>equipment_type := ''PC'', issue_date := ''2025-07-17''\<rparr>]"
    by (auto simp: fan_request_stored)
  have "ticket_number ((create_row example_server (y, k) db ?r)
             \<lparr>equipment_type := ''PC'', issue_date := ''2025-07-17''\<rparr>) = numbered y (Suc n)"
    "YEAR (created_at ((create_row example_server (y, k) db ?r)
             \<lparr>equipment_type := ''PC'', issue_date := ''2025-07-17''\<rparr>)) = y"
    using a by (simp_all add: create_row_def new_ticket_def YEAR_def)
  with c t assms(1,2) show ?thesis by simp
qed

lemma creations_numbers:
  "n \<le> 10000 \<Longrightarrow>
   map ticket_number (tickets (creations y n empty_db)) = map (numbered y) [1..<Suc n] \<and>
   list_all (\<lambda>t. YEAR (created_at t) = y) (tickets (creations y n empty_db))"
proof (induction n)
  case 0
  then show ?case by (simp add: empty_db_def)
next
  case (Suc n)
  then have "map ticket_number (tickets (creations y n empty_db)) = map (numbered y) [1..<Suc n]"
    "list_all (\<lambda>t. YEAR (created_at t) = y) (tickets (creations y n empty_db))" "n < 10000"
    by simp_all
  from creation_step[OF this, of n] show ?case by simp
qed

lemma creation_stuck:
  assumes "map ticket_number (tickets db) = map (numbered y) [1..<Suc 10000]"
    and "list_all (\<lambda>t. YEAR (created_at t) = y) (tickets db)"
  shows "select_last_ticket_number example_server y (tickets db) = [numbered y 9999] \<and>
         allocate_ticket_number example_server y (tickets db) = numbered y 10000 \<and>
         create_ticket example_server ten_chars no_faults (y, k) db (fan_request alice None) =
           (db, duplicate_response)"
proof -
  have y: "YEAR (y, k) = y" by (simp add: YEAR_def)
  from select_last_numbered[OF assms, of ] have s:
    "select_last_ticket_number example_server y (tickets db) = [numbered y 9999]" by simp
  from allocate_numbered[OF assms] have a:
    "allocate_ticket_number example_server y (tickets db) = numbered y 10000" by simp
  from keys_numbered[OF assms(1)] ascii_ci_numbered[of 10000 y]
  have "collate example_server (allocate_ticket_number example_server (YEAR (y, k)) (tickets db))
          \<in> set (map (\<lambda>t. collate example_server (ticket_number t)) (tickets db))"
    by (simp add: a y collate_example)
  with create_ticket_no_faults[OF fan_request_valid, of example_server "(y, k)" db]
  have "create_ticket example_server ten_chars no_faults (y, k) db (fan_request alice None) =
           (db, duplicate_response)"
    by (simp add: fan_request_stored)
  with s a show ?thesis by simp
qed

lemma numbered_2025:
  "numbered 2025 9999 = ''TKT20259999''" "numbered 2025 10000 = ''TKT202510000''"
proof -
  have "digits 10000 = ''10000''" "digits 9999 = ''9999''" "digits 2025 = ''2025''"
    by (simp_all add: digits.simps digitChar_def)
  then show "numbered 2025 9999 = ''TKT20259999''" "numbered 2025 10000 = ''TKT202510000''"
    by (simp_all add: numbered_eq seq4_digits padStart_def)
qed

text \<open>
  Claim C1 against the code.  Starting from an empty table, the first 10000 creations
  of 2025 are numbered \<open>TKT20250001\<close> to \<open>TKT202510000\<close>, one after the other.  From
  then on the query for the greatest number of the year, which compares ticket numbers
  as text, returns \<open>TKT20259999\<close>, not \<open>TKT202510000\<close>: the allocator computes
  sequence 10000 again, the \<open>UNIQUE\<close> index rejects the insert, and the next creation
  is answered with the 409 response and stores nothing, where the claim promises
  sequence 10001.
\<close>

theorem allocator_stuck_after_9999:
  "map ticket_number (tickets (creations 2025 10000 empty_db)) =
     map (\<lambda>k. make_ticket_number 2025 (int k)) [1..<10001] \<and>
   select_last_ticket_number example_server 2025 (tickets (creations 2025 10000 empty_db)) =
     [''TKT20259999''] \<and>
   allocate_ticket_number example_server 2025 (tickets (creations 2025 10000 empty_db)) =
     ''TKT202510000'' \<and>
   make_ticket_number 2025 (int 10000) = ''TKT202510000'' \<and>
   create_ticket example_server ten_chars no_faults (2025, 10000) (creations 2025 10000 empty_db)
       (fan_request alice None) =
     (creations 2025 10000 empty_db,
      Response 409 (Message ''Duplicate ticket number generated; please retry''))"
proof -
  have n: "map ticket_number (tickets (creations 2025 10000 empty_db)) =
             map (numbered 2025) [1..<Suc 10000]"
    "list_all (\<lambda>t. YEAR (created_at t) = 2025) (tickets (creations 2025 10000 empty_db))"
    using creations_numbers[of 10000 2025] by simp_all
  have e: "numbered 2025 = (\<lambda>k. make_ticket_number 2025 (int k))"
    by (rule ext) (simp add: numbered_def)
  have m: "make_ticket_number 2025 (int 10000) = ''TKT202510000''"
    using numbered_2025(2) by (simp only: numbered_def)
  from creation_stuck[OF n, of 10000] n(1) numbered_2025 m
  show ?thesis
    unfolding e[symmetric] by (simp add: duplicate_response_def)
qed


section \<open>Who sees which ticket\<close>


lemma get_tickets_rows:
  assumes "get_tickets Number faults db u q = Response code (Tickets rows page pages n)"
  shows "set rows \<subseteq> set (select_where (list_where Number u q) (tickets db))"
proof -
  from assms have "\<exists>k m. rows = take k (drop m (rev (sort_key created_at
                      (select_where (list_where Number u q) (tickets db)))))"
    by (auto simp: get_tickets_def Let_def server_error_def split: option.splits)
  then obtain k m where "rows = take k (drop m (rev (sort_key created_at
                      (select_where (list_where Number u q) (tickets db)))))"
    by blast
  then have "set rows \<subseteq> set (rev (sort_key created_at
                      (select_where (list_where Number u q) (tickets db))))"
    using set_take_subset set_drop_subset by (metis order_trans)
  then show ?thesis by simp
qed

lemma list_where_non_admin:
  assumes "\<not> isAdmin u" "t \<in> set (select_where (list_where Number u q) ts)"
  shows "created_by t = user_id u"
  using assms by (simp add: select_where_def list_where_def)

text \<open>
  Claim C6.  Whatever the query parameters (page, limit, status, department, search,
  created_by) and whether or not a query throws: every ticket in a list answered to a
  caller who is not an admin is a stored ticket created by that caller.
\<close>

theorem list_scoped_to_caller:
  assumes "\<not> isAdmin u"
    and "get_tickets Number faults db u q = Response code (Tickets rows page pages n)"
  shows "\<forall>t\<in>set rows. created_by t = user_id u \<and> t \<in> set (tickets db)"
proof
  fix t assume "t \<in> set rows"
  with get_tickets_rows[OF assms(2)]
  have t: "t \<in> set (select_where (list_where Number u q) (tickets db))" by blast
  then have "t \<in> set (tickets db)" by (simp add: select_where_def)
  with list_where_non_admin[OF assms(1) t]
  show "created_by t = user_id u \<and> t \<in> set (tickets db)" by simp
qed

theorem list_scoped_to_caller_witness:
  "get_tickets no_number no_faults open_db alice
     \<lparr>q_page = Some ''1'', q_limit = Some ''50'', q_status = Some ''Pending'', q_department = None,
      q_search = Some ''fan'', q_created_by = Some ''3''\<rparr> =
   Response 200 (Tickets [example_ticket 1 ''TKT20250001'' 2 ''Pending''
                            (Some ''/uploads/ticket-1.png'') (2025, 10)] 1 1 1) \<and>
   created_by (example_ticket 1 ''TKT20250001'' 2 ''Pending''
                 (Some ''/uploads/ticket-1.png'') (2025, 10)) = user_id alice"
proof -
  let ?q = "\<lparr>q_page = Some ''1'', q_limit = Some ''50'', q_status = Some ''Pending'',
             q_department = None, q_search = Some ''fan'', q_created_by = Some ''3''\<rparr>"
  have a: "\<not> isAdmin alice" by code_simp
  have r: "get_tickets no_number no_faults open_db alice ?q =
           Response 200 (Tickets [example_ticket 1 ''TKT20250001'' 2 ''Pending''
                            (Some ''/uploads/ticket-1.png'') (2025, 10)] 1 1 1)"
    by code_simp
  from list_scoped_to_caller[OF a r] r show ?thesis by simp
qed


section \<open>Closed tickets\<close>








section \<open>Deleting a ticket and its photo\<close>

text \<open>
  Claim C7, as stated, fails where the removal itself fails: the photo of ticket 1
  exists and \<open>fs.unlinkSync\<close> throws, the route answers 500 before it sends the
  \<open>DELETE\<close>, and the ticket and its updates stay.
\<close>

theorem photo_removal_counterexample:
  "select_ticket alice 1 (tickets open_db) =
     [example_ticket 1 ''TKT20250001'' 2 ''Pending'' (Some ''/uploads/ticket-1.png'') (2025, 10)] \<and>
   delete_ticket no_faults True open_db {''/uploads/ticket-1.png''} alice 1 =
     (open_db, {''/uploads/ticket-1.png''}, Response 500 (Message ''Server error''))"
  by code_simp

lemma delete_rows_gone:
  "filter (\<lambda>x. t_id x = i) (tickets (delete_rows i db)) = [] \<and>
   filter (\<lambda>x. tu_ticket_id x = i) (ticket_updates (delete_rows i db)) = []"
  by (simp add: delete_rows_def filter_empty_conv)

lemma delete_ticket_done:
  assumes "select_ticket u i (tickets db) = t # rest" "status t \<noteq> ''Closed''"
    and "faults 0 = None" "faults 1 = None"
    and "\<not> (truthy (photo_url t) \<and> field (photo_url t) \<in> files \<and> unlink_throws)"
  shows "delete_ticket faults unlink_throws db files u i =
           (delete_rows i db,
            (if truthy (photo_url t) then files - {field (photo_url t)} else files),
            Response 200 (Message ''Ticket deleted successfully''))"
  using assms by (auto simp: delete_ticket_def Let_def)

text \<open>
  Claim C7, amended.  For a ticket that exists for the caller and is not closed, with
  no database call throwing: when the ticket has no photo, when its photo file is
  absent, and when the file is removed without an error, the route answers 200, the
  file is gone, and no ticket row and no update row of that ticket id remains.
\<close>

theorem delete_survives_missing_photo:
  assumes "select_ticket u i (tickets db) = t # rest" "status t \<noteq> ''Closed''"
    and "faults 0 = None" "faults 1 = None"
    and "\<not> truthy (photo_url t) \<or> field (photo_url t) \<notin> files \<or> \<not> unlink_throws"
  shows "delete_ticket faults unlink_throws db files u i =
           (delete_rows i db,
            (if truthy (photo_url t) then files - {field (photo_url t)} else files),
            Response 200 (Message ''Ticket deleted successfully'')) \<and>
         filter (\<lambda>x. t_id x = i) (tickets (delete_rows i db)) = [] \<and>
         filter (\<lambda>x. tu_ticket_id x = i) (ticket_updates (delete_rows i db)) = []"
proof -
  from assms(5)
  have "\<not> (truthy (photo_url t) \<and> field (photo_url t) \<in> files \<and> unlink_throws)" by blast
  from delete_ticket_done[OF assms(1-4) this] delete_rows_gone[of i db]
  show ?thesis by simp
qed

theorem delete_survives_missing_photo_witness:
  "snd (snd (delete_ticket no_faults True open_db {} alice 1)) =
     Response 200 (Message ''Ticket deleted successfully'') \<and>
   map t_id (tickets (fst (delete_ticket no_faults True open_db {} alice 1))) = [2, 3] \<and>
   map tu_id (ticket_updates (fst (delete_ticket no_faults True open_db {} alice 1))) = [2, 3] \<and>
   delete_ticket no_faults False open_db {''/uploads/ticket-1.png''} alice 1 =
     (delete_rows 1 open_db, {}, Response 200 (Message ''Ticket deleted successfully'')) \<and>
   delete_ticket no_faults True open_db {''/uploads/ticket-1.png''} bob 2 =
     (delete_rows 2 open_db, {''/uploads/ticket-1.png''},
      Response 200 (Message ''Ticket deleted successfully''))"
proof -
  let ?t1 = "example_ticket 1 ''TKT20250001'' 2 ''Pending'' (Some ''/uploads/ticket-1.png'') (2025, 10)"
  let ?t2 = "example_ticket 2 ''TKT20250002'' 3 ''Pending'' None (2025, 20)"
  have s: "select_ticket alice 1 (tickets open_db) = ?t1 # []"
    "select_ticket bob 2 (tickets open_db) = ?t2 # []"
    by code_simp+
  have o: "status ?t1 \<noteq> ''Closed''" "status ?t2 \<noteq> ''Closed''"
    "truthy (photo_url ?t1)" "\<not> truthy (photo_url ?t2)"
    "field (photo_url ?t1) = ''/uploads/ticket-1.png''"
    by (simp_all add: example_ticket_def truthy_def field_def)
  have f: "no_faults 0 = None" "no_faults 1 = None" by (simp_all add: no_faults_def)
  have r: "map t_id (tickets (delete_rows 1 open_db)) = [2, 3]"
    "map tu_id (ticket_updates (delete_rows 1 open_db)) = [2, 3]"
    by code_simp+
  have a: "\<not> truthy (photo_url ?t1) \<or> field (photo_url ?t1) \<notin> {} \<or> \<not> True" by simp
  have b: "\<not> truthy (photo_url ?t1) \<or> field (photo_url ?t1) \<notin> {''/uploads/ticket-1.png''} \<or> \<not> False"
    by simp
  have c: "\<not> truthy (photo_url ?t2) \<or> field (photo_url ?t2) \<notin> {''/uploads/ticket-1.png''} \<or> \<not> True"
    using o(4) by simp
  from delete_survives_missing_photo[OF s(1) o(1) f a]
       delete_survives_missing_photo[OF s(1) o(1) f b]
       delete_survives_missing_photo[OF s(2) o(2) f c] o r
  show ?thesis by simp
qed


section \<open>Changing the status\<close>

text \<open>
  Claim C2 against the code: an admin moves ticket 1 from Pending to In Progress and
  the \<open>INSERT\<close> of the update throws after the \<open>UPDATE\<close> has run.  The route
  answers 500, the ticket shows the new status, and \<open>ticket_updates\<close> holds no row
  for the change.
\<close>

theorem status_change_torn:
  "snd (update_status (fault_at 2) (2025, 100) open_db
          \<lparr>sr_user = root, sr_id = 1, sr_status = Some ''In Progress'',
           sr_notes = Some ''starting work''\<rparr>) = Response 500 (Message ''Server error'') \<and>
   map status (tickets open_db) = [''Pending'', ''Pending'', ''Pending''] \<and>
   map status (tickets (fst (update_status (fault_at 2) (2025, 100) open_db
          \<lparr>sr_user = root, sr_id = 1, sr_status = Some ''In Progress'',
           sr_notes = Some ''starting work''\<rparr>))) = [''In Progress'', ''Pending'', ''Pending''] \<and>
   ticket_updates (fst (update_status (fault_at 2) (2025, 100) open_db
          \<lparr>sr_user = root, sr_id = 1, sr_status = Some ''In Progress'',
           sr_notes = Some ''starting work''\<rparr>)) = ticket_updates open_db"
  by code_simp


section \<open>The role \<open>it\<close>\<close>






end
